theory Spec2Isabelle
  imports Complex_Main
begin

section \<open>Registry synchronisation and import engine\<close>

text \<open>
  A shallow embedding of the import path of \<^verbatim>\<open>src/pages/AdminPortal.tsx\<close>
  (\<^verbatim>\<open>parseCSVLine\<close>, \<^verbatim>\<open>handleMasterSync\<close> with its local helpers
  \<^verbatim>\<open>getIdx\<close>, \<^verbatim>\<open>col\<close>, \<^verbatim>\<open>parseVal\<close>) and of the application shell that
  follows it in the same file (\<^verbatim>\<open>boot\<close>, \<^verbatim>\<open>syncToCloud\<close>, \<^verbatim>\<open>handleMassImport\<close>,
  \<^verbatim>\<open>handleRegister\<close>, \<^verbatim>\<open>userFiles\<close>).

  Conventions of the embedding.
  \<^item> A JavaScript string is a \<open>string\<close>: a list of 8-bit characters. The texts modelled
    are ASCII: case conversion acts on the letters A to Z and a to z, and white space is
    the ASCII white space. The byte order mark U+FEFF that \<^verbatim>\<open>handleMasterSync\<close> strips
    from the front of the text is not a character of this type, so that step is the
    identity here.
  \<^item> \<^verbatim>\<open>undefined\<close> and \<^verbatim>\<open>null\<close> are \<open>None\<close> of an option type.
  \<^item> A JavaScript number that holds an amount is a \<open>number\<close>: a rational, one of the two
    infinities, or NaN. Finite arithmetic is exact: the rounding of doubles is not
    modelled. Row indices are \<open>nat\<close>, clock readings are \<open>int\<close>.
  \<^item> A JavaScript \<^verbatim>\<open>Map\<close> is an association list in insertion order.
  \<^item> An exception is the value \<open>None\<close> of the function that would throw.
\<close>

subsection \<open>Strings\<close>

definition is_space :: "char \<Rightarrow> bool" where
  "is_space c \<longleftrightarrow> c \<in> set [CHR '' '', CHR 0x09, CHR 0x0A, CHR 0x0B, CHR 0x0C, CHR 0x0D]"

definition is_digit :: "char \<Rightarrow> bool" where
  "is_digit c \<longleftrightarrow> c \<in> set ''0123456789''"

text \<open>\<^verbatim>\<open>String.prototype.trim\<close>.\<close>

definition trim :: "string \<Rightarrow> string" where
  "trim s = rev (dropWhile is_space (rev (dropWhile is_space s)))"

text \<open>\<^verbatim>\<open>toLowerCase\<close> and \<^verbatim>\<open>toUpperCase\<close> on ASCII text.\<close>

definition lower_char :: "char \<Rightarrow> char" where
  "lower_char c = (let n = (of_char c :: nat) in if 65 \<le> n \<and> n \<le> 90 then char_of (n + 32) else c)"

definition upper_char :: "char \<Rightarrow> char" where
  "upper_char c = (let n = (of_char c :: nat) in if 97 \<le> n \<and> n \<le> 122 then char_of (n - 32) else c)"

definition toLowerCase :: "string \<Rightarrow> string" where
  "toLowerCase s = map lower_char s"

definition toUpperCase :: "string \<Rightarrow> string" where
  "toUpperCase s = map upper_char s"

text \<open>\<^verbatim>\<open>text.split(/\r?\n/)\<close>: a line ends at a line feed, and a carriage return
  right before that line feed belongs to the separator. The first argument is the line
  being read, reversed.\<close>

fun split_lines :: "string \<Rightarrow> string \<Rightarrow> string list" where
  "split_lines cur [] = [rev cur]"
| "split_lines cur [c] = (if c = CHR 0x0A then [rev cur, []] else [rev (c # cur)])"
| "split_lines cur (c # d # cs) =
     (if c = CHR 0x0D \<and> d = CHR 0x0A then rev cur # split_lines [] cs
      else if c = CHR 0x0A then rev cur # split_lines [] (d # cs)
      else split_lines (c # cur) (d # cs))"

text \<open>\<^verbatim>\<open>v || d\<close> on a string that may be undefined: the empty string is falsy too.\<close>

definition or_else :: "string option \<Rightarrow> string \<Rightarrow> string" where
  "or_else v d = (case v of None \<Rightarrow> d | Some s \<Rightarrow> if s = [] then d else s)"

text \<open>Identity normalisation, \<^verbatim>\<open>replace(/[^0-9X]/g, '')\<close>: every character that is
  neither a decimal digit nor the capital letter X is replaced by nothing.\<close>

fun normCNIC :: "string \<Rightarrow> string" where
  "normCNIC [] = []"
| "normCNIC (c # cs) = (if is_digit c \<or> c = CHR ''X'' then c # normCNIC cs else normCNIC cs)"

subsection \<open>Numbers\<close>

datatype number = NaN | Fin rat | PosInf | NegInf

text \<open>The sum of two numbers, as \<^verbatim>\<open>+=\<close> computes it.\<close>

fun num_add :: "number \<Rightarrow> number \<Rightarrow> number" where
  "num_add (Fin a) (Fin b) = Fin (a + b)"
| "num_add NaN y = NaN"
| "num_add x NaN = NaN"
| "num_add PosInf NegInf = NaN"
| "num_add NegInf PosInf = NaN"
| "num_add PosInf y = PosInf"
| "num_add NegInf y = NegInf"
| "num_add x PosInf = PosInf"
| "num_add x NegInf = NegInf"

text \<open>\<^verbatim>\<open>x || 0\<close> on a number: NaN and zero are falsy.\<close>

definition or_zero :: "number \<Rightarrow> number" where
  "or_zero x = (if x = NaN \<or> x = Fin 0 then Fin 0 else x)"

text \<open>The builtin \<^verbatim>\<open>parseFloat\<close>: leading white space is skipped, then the longest
  prefix that is a decimal literal is read (a sign, \<^verbatim>\<open>Infinity\<close> or digits with an
  optional fraction and an optional exponent); what follows is ignored, and a text with
  no such prefix gives NaN.\<close>

definition digits_val :: "string \<Rightarrow> nat" where
  "digits_val ds = foldl (\<lambda>a c. 10 * a + (of_char c - 48)) 0 ds"

definition exponent :: "string \<Rightarrow> int" where
  "exponent s =
     (case s of
        [] \<Rightarrow> 0
      | c # r \<Rightarrow>
          if c = CHR ''e'' \<or> c = CHR ''E'' then
            (case r of
               [] \<Rightarrow> 0
             | d # r' \<Rightarrow>
                 if d = CHR ''-'' then - int (digits_val (takeWhile is_digit r'))
                 else if d = CHR ''+'' then int (digits_val (takeWhile is_digit r'))
                 else int (digits_val (takeWhile is_digit r)))
          else 0)"

definition scale10 :: "rat \<Rightarrow> int \<Rightarrow> rat" where
  "scale10 m e = (if 0 \<le> e then m * 10 ^ nat e else m / 10 ^ nat (- e))"

definition unsigned_literal :: "string \<Rightarrow> rat option" where
  "unsigned_literal u =
     (let ip = takeWhile is_digit u;
          r1 = dropWhile is_digit u;
          dot = (r1 \<noteq> [] \<and> hd r1 = CHR ''.'');
          fp = (if dot then takeWhile is_digit (tl r1) else []);
          r2 = (if dot then dropWhile is_digit (tl r1) else r1)
      in if ip = [] \<and> fp = [] then None
         else Some (scale10 (of_nat (digits_val (ip @ fp)) / 10 ^ length fp) (exponent r2)))"

definition parseFloat :: "string \<Rightarrow> number" where
  "parseFloat s =
     (let t = dropWhile is_space s;
          neg = (t \<noteq> [] \<and> hd t = CHR ''-'');
          u = (if t \<noteq> [] \<and> (hd t = CHR ''-'' \<or> hd t = CHR ''+'') then tl t else t)
      in if take 8 u = ''Infinity'' then (if neg then NegInf else PosInf)
         else (case unsigned_literal u of
                 None \<Rightarrow> NaN
               | Some m \<Rightarrow> Fin (if neg then - m else m)))"

subsection \<open>The row parser and the column resolver\<close>

text \<open>\<^verbatim>\<open>parseCSVLine\<close>, lines 50 to 60: a double quote toggles \<^verbatim>\<open>inQ\<close> and is
  dropped, a comma outside quotes closes the column, any other character is appended.\<close>

fun csv_scan :: "string list \<Rightarrow> string \<Rightarrow> bool \<Rightarrow> string \<Rightarrow> string list" where
  "csv_scan columns cur inQ [] = columns @ [trim cur]"
| "csv_scan columns cur inQ (c # cs) =
     (if c = CHR 0x22 then csv_scan columns cur (\<not> inQ) cs
      else if c = CHR '','' \<and> \<not> inQ then csv_scan (columns @ [trim cur]) [] inQ cs
      else csv_scan columns (cur @ [c]) inQ cs)"

definition parseCSVLine :: "string \<Rightarrow> string list" where
  "parseCSVLine line = csv_scan [] [] False line"

text \<open>\<^verbatim>\<open>Array.prototype.indexOf\<close>: the first index that holds the value, if any.\<close>

fun indexOf :: "'a list \<Rightarrow> 'a \<Rightarrow> nat option" where
  "indexOf [] x = None"
| "indexOf (y # ys) x = (if y = x then Some 0 else map_option Suc (indexOf ys x))"

text \<open>\<^verbatim>\<open>getIdx\<close>, lines 75 to 81; \<open>normH\<close> is the header row, each cell trimmed and
  in lower case. The result \<open>None\<close> is the source's \<open>-1\<close>.\<close>

fun getIdx :: "string list \<Rightarrow> string list \<Rightarrow> nat option" where
  "getIdx normH [] = None"
| "getIdx normH (n # names) =
     (case indexOf normH (toLowerCase n) of
        Some i \<Rightarrow> Some i
      | None \<Rightarrow> getIdx normH names)"

text \<open>\<^verbatim>\<open>col\<close>, lines 83 to 86: \<^verbatim>\<open>arr[i]?.trim()\<close> is undefined past the end of the
  row.\<close>

definition col :: "string list \<Rightarrow> string list \<Rightarrow> string list \<Rightarrow> string option" where
  "col normH arr names =
     (case getIdx normH names of
        None \<Rightarrow> None
      | Some i \<Rightarrow> if i < length arr then Some (trim (arr ! i)) else None)"

text \<open>\<^verbatim>\<open>parseVal\<close>, lines 88 to 91.\<close>

definition parseVal :: "string option \<Rightarrow> number" where
  "parseVal v =
     (case v of
        None \<Rightarrow> Fin 0
      | Some s \<Rightarrow>
          if s = [] \<or> toUpperCase s = ''NULL'' \<or> s = ''-'' then Fin 0
          else or_zero (parseFloat
                 (filter (\<lambda>c. c \<noteq> CHR ''('' \<and> c \<noteq> CHR '')'') (filter (\<lambda>c. c \<noteq> CHR '','') s))))"

subsection \<open>The data model\<close>

text \<open>The interfaces \<^verbatim>\<open>User\<close>, \<^verbatim>\<open>PropertyFile\<close> and \<^verbatim>\<open>Transaction\<close> are declared in
  \<^verbatim>\<open>types.ts\<close>, which is not among the sources. Their fields are those of the object
  literals of \<^verbatim>\<open>handleMasterSync\<close> (lines 105 to 112, 116 to 133 and 143 to 154). A
  field of a \<open>user\<close> other than \<open>cnic\<close> may be absent from an object, which matters where
  one object is spread over another (\<^verbatim>\<open>handleRegister\<close>); \<open>cnic\<close> is read with
  \<^verbatim>\<open>.replace\<close> wherever a user is compared and is always a string.\<close>

record user =
  id_user :: "string option"
  cnic :: string
  name :: "string option"
  email :: "string option"
  phone :: "string option"
  role :: "string option"
  status :: "string option"
  password :: "string option"

record transaction =
  seq :: nat
  transid :: int
  line_id :: nat
  shortname :: string
  duedate :: string
  receivable_tx :: number
  u_intno :: number
  u_intname :: string
  transtype :: string
  itemcode :: string
  plottype :: string
  currency :: string
  description :: string
  doctotal :: number
  status_tx :: string
  balance_tx :: number
  balduedeb :: number
  paysrc :: number
  amount_paid :: number
  receipt_date :: "string option"
  mode :: "string option"
  surcharge_tx :: number

record property_file =
  fileNo :: string
  currencyNo :: string
  plotSize :: string
  plotValue :: number
  balance :: number
  receivable :: number
  totalReceivable :: number
  paymentReceived :: number
  surcharge :: number
  overdue :: number
  ownerName :: "string option"
  ownerCNIC :: string
  fatherName :: string
  cellNo :: string
  regDate :: string
  address :: string
  plotNo :: string
  block :: string
  park :: string
  corner :: string
  mainBoulevard :: string
  transactions :: "transaction list"

subsection \<open>Maps in insertion order\<close>

text \<open>\<^verbatim>\<open>Map.prototype.has\<close>, \<^verbatim>\<open>get\<close>, \<^verbatim>\<open>set\<close> and \<^verbatim>\<open>values\<close>. Setting a key that
  is present replaces the value where it stands; a new key goes to the end.\<close>

definition jsmap_has :: "('k \<times> 'v) list \<Rightarrow> 'k \<Rightarrow> bool" where
  "jsmap_has m k \<longleftrightarrow> k \<in> set (map fst m)"

definition jsmap_get :: "('k \<times> 'v) list \<Rightarrow> 'k \<Rightarrow> 'v option" where
  "jsmap_get m k = map_of m k"

definition jsmap_set :: "('k \<times> 'v) list \<Rightarrow> 'k \<Rightarrow> 'v \<Rightarrow> ('k \<times> 'v) list" where
  "jsmap_set m k v =
     (if jsmap_has m k then map (\<lambda>e. if fst e = k then (k, v) else e) m else m @ [(k, v)])"

definition jsmap_values :: "('k \<times> 'v) list \<Rightarrow> 'v list" where
  "jsmap_values m = map snd m"

text \<open>\<^verbatim>\<open>new Map(entries)\<close>: the entries are set one after the other.\<close>

definition jsmap_of :: "('k \<times> 'v) list \<Rightarrow> ('k \<times> 'v) list" where
  "jsmap_of entries = foldl (\<lambda>m e. jsmap_set m (fst e) (snd e)) [] entries"

subsection \<open>The entity builder\<close>

text \<open>The body of \<^verbatim>\<open>handleMasterSync\<close>, lines 69 to 155. \<open>file_lines\<close> is the list
  \<^verbatim>\<open>lines\<close> (line 70) and \<open>header_of\<close> is \<^verbatim>\<open>normH\<close> (lines 73 and 74).\<close>

definition file_lines :: "string \<Rightarrow> string list" where
  "file_lines text = filter (\<lambda>l. trim l \<noteq> []) (split_lines [] text)"

definition header_of :: "string \<Rightarrow> string list" where
  "header_of line = map (\<lambda>h. toLowerCase (trim h)) (parseCSVLine line)"

text \<open>The raw identity and the account code of a row, lines 98 and 100.\<close>

definition rawCNIC_of :: "string list \<Rightarrow> string list \<Rightarrow> string" where
  "rawCNIC_of normH cols = or_else (col normH cols [''ocnic'', ''cnic'', ''u_ocnic'']) []"

definition itemCode_of :: "string list \<Rightarrow> string list \<Rightarrow> string" where
  "itemCode_of normH cols = or_else (col normH cols [''itemcode'', ''item_code'', ''u_itemcode'']) []"

text \<open>The object literals of lines 105 to 112, 116 to 133 and 143 to 154.\<close>

definition new_user :: "string list \<Rightarrow> string list \<Rightarrow> user" where
  "new_user normH cols =
     \<lparr> id_user = Some (''user-'' @ normCNIC (rawCNIC_of normH cols)),
       cnic = rawCNIC_of normH cols,
       name = Some (or_else (col normH cols [''oname'', ''ownername'', ''name'']) ''SAP Member''),
       email = Some (normCNIC (rawCNIC_of normH cols) @ ''@dinproperties.com.pk''),
       phone = Some (or_else (col normH cols [''ocell'', ''cellno'']) ''-''),
       role = Some ''CLIENT'',
       status = Some ''Active'',
       password = Some ''password123'' \<rparr>"

definition new_file :: "string list \<Rightarrow> string list \<Rightarrow> string option \<Rightarrow> property_file" where
  "new_file normH cols owner_name =
     \<lparr> fileNo = itemCode_of normH cols,
       currencyNo = or_else (col normH cols [''currencyno'', ''currency'']) ''-'',
       plotSize = or_else (col normH cols [''dscription'', ''description'', ''size'']) ''Plot'',
       plotValue = parseVal (col normH cols [''doctotal'']),
       balance = Fin 0,
       receivable = Fin 0,
       totalReceivable = Fin 0,
       paymentReceived = Fin 0,
       surcharge = Fin 0,
       overdue = Fin 0,
       ownerName = owner_name,
       ownerCNIC = rawCNIC_of normH cols,
       fatherName = or_else (col normH cols [''ofatname'', ''fathername'']) ''-'',
       cellNo = or_else (col normH cols [''ocell'', ''cellno'']) ''-'',
       regDate = or_else (col normH cols [''otrfdate'', ''regdate'']) ''-'',
       address = or_else (col normH cols [''opraddress'', ''address'']) ''-'',
       plotNo = or_else (col normH cols [''plot'', ''plotno'', ''u_plotno'']) ''-'',
       block = or_else (col normH cols [''block'', ''u_block'']) ''-'',
       park = or_else (col normH cols [''park'', ''u_park'']) ''-'',
       corner = or_else (col normH cols [''corner'', ''u_corner'']) ''-'',
       mainBoulevard = or_else (col normH cols [''mb'', ''mainboulevard'', ''u_mainbu'']) ''-'',
       transactions = [] \<rparr>"

definition paidVal_of :: "string list \<Rightarrow> string list \<Rightarrow> number" where
  "paidVal_of normH cols = parseVal (col normH cols [''reconsum'', ''paid''])"

definition osVal_of :: "string list \<Rightarrow> string list \<Rightarrow> number" where
  "osVal_of normH cols = parseVal (col normH cols [''balduedeb'', ''balance''])"

text \<open>\<open>now\<close> is the reading of \<^verbatim>\<open>Date.now()\<close> when the row is handled, \<open>idx\<close> the
  index of the row among the lines after the header, \<open>ptotal\<close> the \<^verbatim>\<open>plotValue\<close> of the
  account.\<close>

definition new_transaction :: "string list \<Rightarrow> int \<Rightarrow> nat \<Rightarrow> string list \<Rightarrow> number \<Rightarrow> transaction" where
  "new_transaction normH now idx cols ptotal =
     \<lparr> seq = idx,
       transid = now + int idx,
       line_id = 0,
       shortname = itemCode_of normH cols,
       duedate = or_else (col normH cols [''duedate'']) ''-'',
       receivable_tx = parseVal (col normH cols [''receivable'']),
       u_intno = parseVal (col normH cols [''u_intno'']),
       u_intname = or_else (col normH cols [''u_intname'']) ''INSTALLMENT'',
       transtype = ''13'',
       itemcode = itemCode_of normH cols,
       plottype = ''Res'',
       currency = ''PKR'',
       description = [],
       doctotal = ptotal,
       status_tx = ''Synced'',
       balance_tx = Fin 0,
       balduedeb = osVal_of normH cols,
       paysrc = Fin 0,
       amount_paid = paidVal_of normH cols,
       receipt_date = col normH cols [''refdate''],
       mode = col normH cols [''mode''],
       surcharge_tx = parseVal (col normH cols [''markup'', ''surcharge'']) \<rparr>"

type_synonym userMap = "(string \<times> user) list"
type_synonym fileMap = "(string \<times> property_file) list"

text \<open>Lines 104 to 113.\<close>

definition row_user :: "string list \<Rightarrow> string list \<Rightarrow> userMap \<Rightarrow> userMap" where
  "row_user normH cols userMap =
     (if \<not> jsmap_has userMap (normCNIC (rawCNIC_of normH cols))
      then jsmap_set userMap (normCNIC (rawCNIC_of normH cols)) (new_user normH cols)
      else userMap)"

text \<open>Lines 115 to 134. \<^verbatim>\<open>userMap.get(normCNIC)!.name\<close> throws a TypeError when the
  map has no such key.\<close>

definition row_file :: "string list \<Rightarrow> string list \<Rightarrow> userMap \<Rightarrow> fileMap \<Rightarrow> fileMap option" where
  "row_file normH cols userMap fileMap =
     (if \<not> jsmap_has fileMap (itemCode_of normH cols)
      then (case jsmap_get userMap (normCNIC (rawCNIC_of normH cols)) of
              None \<Rightarrow> None
            | Some owner \<Rightarrow>
                Some (jsmap_set fileMap (itemCode_of normH cols) (new_file normH cols (name owner))))
      else Some fileMap)"

text \<open>Lines 136 to 154. \<^verbatim>\<open>prop\<close> is the object the map holds, so the assignments to
  its fields change the entry of the map; reading a field of \<^verbatim>\<open>fileMap.get(itemCode)!\<close>
  throws when the map has no such key.\<close>

definition row_post :: "string list \<Rightarrow> int \<Rightarrow> nat \<Rightarrow> string list \<Rightarrow> fileMap \<Rightarrow> fileMap option" where
  "row_post normH now idx cols fileMap =
     (case jsmap_get fileMap (itemCode_of normH cols) of
        None \<Rightarrow> None
      | Some prop \<Rightarrow>
          Some (jsmap_set fileMap (itemCode_of normH cols)
            (prop\<lparr> paymentReceived := num_add (paymentReceived prop) (paidVal_of normH cols),
                   balance := num_add (balance prop) (osVal_of normH cols),
                   transactions := transactions prop
                     @ [new_transaction normH now idx cols (plotValue prop)] \<rparr>)))"

text \<open>The callback of \<^verbatim>\<open>forEach\<close>, lines 96 to 155, on the row \<open>idx\<close>.\<close>

definition process_row ::
  "string list \<Rightarrow> (nat \<Rightarrow> int) \<Rightarrow> userMap \<times> fileMap \<Rightarrow> nat \<times> string \<Rightarrow> (userMap \<times> fileMap) option" where
  "process_row normH clock maps row =
     (let cols = parseCSVLine (snd row) in
      if normCNIC (rawCNIC_of normH cols) = [] \<or> itemCode_of normH cols = [] then Some maps
      else
        (case row_file normH cols (row_user normH cols (fst maps)) (snd maps) of
           None \<Rightarrow> None
         | Some fileMap \<Rightarrow>
             (case row_post normH (clock (fst row)) (fst row) cols fileMap of
                None \<Rightarrow> None
              | Some fileMap' \<Rightarrow> Some (row_user normH cols (fst maps), fileMap'))))"

text \<open>\<^verbatim>\<open>forEach\<close> over the rows; an exception ends the loop.\<close>

fun forEach_rows ::
  "string list \<Rightarrow> (nat \<Rightarrow> int) \<Rightarrow> userMap \<times> fileMap \<Rightarrow> (nat \<times> string) list \<Rightarrow> (userMap \<times> fileMap) option" where
  "forEach_rows normH clock maps [] = Some maps"
| "forEach_rows normH clock maps (row # rows) =
     (case process_row normH clock maps row of
        None \<Rightarrow> None
      | Some maps' \<Rightarrow> forEach_rows normH clock maps' rows)"

text \<open>The rows after the header with their indices, \<^verbatim>\<open>lines.slice(1)\<close>.\<close>

definition data_rows :: "string \<Rightarrow> (nat \<times> string) list" where
  "data_rows text = enumerate 0 (tl (file_lines text))"

record import_data =
  d_users :: "user list"
  d_files :: "property_file list"

text \<open>Lines 69 to 161 up to the call of \<^verbatim>\<open>onImportFullDatabase\<close>: the candidate set, or
  \<open>None\<close> when an exception reaches the \<^verbatim>\<open>catch\<close> of line 164.\<close>

definition build_entities :: "(nat \<Rightarrow> int) \<Rightarrow> string \<Rightarrow> import_data option" where
  "build_entities clock text =
     (if length (file_lines text) < 2 then None
      else
        (case forEach_rows (header_of (hd (file_lines text))) clock ([], []) (data_rows text) of
           None \<Rightarrow> None
         | Some maps \<Rightarrow>
             Some \<lparr> d_users = jsmap_values (fst maps), d_files = jsmap_values (snd maps) \<rparr>))"

subsection \<open>The application state and the two persistence tiers\<close>

text \<open>The state of \<^verbatim>\<open>App\<close>: the four collections, the object store \<^verbatim>\<open>registry\<close> of
  the local database with one slot per key, the upserts the remote store has
  acknowledged, in order, and the lines written with \<^verbatim>\<open>console.error\<close>. The types of a
  notice and of a message are parameters. The indicators \<^verbatim>\<open>isSyncing\<close> and
  \<^verbatim>\<open>isProcessing\<close> and the session user are not part of the model.\<close>

record ('n, 'm) store =
  s_users :: "user list option"
  s_files :: "property_file list option"
  s_notices :: "'n list option"
  s_messages :: "'m list option"

datatype rows = UserRows "user list" | FileRows "property_file list"

record ('n, 'm) app =
  users :: "user list"
  allFiles :: "property_file list"
  notices :: "'n list"
  messages :: "'m list"
  isLoading :: bool
  local_store :: "('n, 'm) store"
  remote :: "(string \<times> rows) list"
  console :: "string list"

text \<open>The state before \<^verbatim>\<open>boot\<close>, lines 344 to 349, with nothing stored, nothing sent
  and nothing logged.\<close>

definition initial_app :: "('n, 'm) app" where
  "initial_app =
     \<lparr> users = [], allFiles = [], notices = [], messages = [], isLoading = True,
       local_store = \<lparr> s_users = None, s_files = None, s_notices = None, s_messages = None \<rparr>,
       remote = [], console = [] \<rparr>"

text \<open>What can go wrong in one call of \<^verbatim>\<open>AsyncStorage\<close>: the database does not open
  (\<^verbatim>\<open>getDB\<close> rejects, which both \<^verbatim>\<open>setItem\<close> and \<^verbatim>\<open>getItem\<close> catch), or the
  transaction or request fails (the promise rejects). An upsert is acknowledged or
  throws.\<close>

datatype fault = NoFault | OpenFails | TxFails

datatype remote_result = Ack | Throws

text \<open>\<^verbatim>\<open>AsyncStorage.setItem\<close>, lines 312 to 323; \<open>put\<close> stores the value under its key.
  \<open>None\<close> is the rejected promise. The value stored and the rows sent to the remote store
  pass through \<^verbatim>\<open>JSON.parse(JSON.stringify(...))\<close>, which gives the collections back as
  they are when their amounts are finite: the model stores and sends the collections
  themselves.\<close>

definition setItem ::
  "fault \<Rightarrow> (('n, 'm) store \<Rightarrow> ('n, 'm) store) \<Rightarrow> ('n, 'm) app \<Rightarrow> ('n, 'm) app option" where
  "setItem f put st =
     (case f of
        NoFault \<Rightarrow> Some (st\<lparr>local_store := put (local_store st)\<rparr>)
      | OpenFails \<Rightarrow> Some (st\<lparr>console := console st @ [''Critical Persistence Error:'']\<rparr>)
      | TxFails \<Rightarrow> None)"


text \<open>\<^verbatim>\<open>syncToCloud\<close>, lines 406 to 414; \<open>cloud\<close> is \<^verbatim>\<open>isCloudEnabled && supabase\<close>, a
  constant of the module \<^verbatim>\<open>supabase\<close>, which is not among the sources.\<close>

definition dbTable :: "string \<Rightarrow> string" where
  "dbTable table =
     (if table = ''users'' then ''profiles''
      else if table = ''files'' then ''property_files'' else table)"

definition syncToCloud ::
  "bool \<Rightarrow> remote_result \<Rightarrow> string \<Rightarrow> rows \<Rightarrow> ('n, 'm) app \<Rightarrow> ('n, 'm) app" where
  "syncToCloud cloud r table data st =
     (if \<not> cloud then st
      else (case r of
              Ack \<Rightarrow> st\<lparr>remote := remote st @ [(dbTable table, data)]\<rparr>
            | Throws \<Rightarrow> st\<lparr>console := console st @ [''Cloud Sync Failed:'']\<rparr>))"

text \<open>\<^verbatim>\<open>handleUpdateUsers\<close>, line 416.\<close>

definition handleUpdateUsers ::
  "bool \<Rightarrow> remote_result \<Rightarrow> user list \<Rightarrow> ('n, 'm) app \<Rightarrow> ('n, 'm) app" where
  "handleUpdateUsers cloud r u st = syncToCloud cloud r ''users'' (UserRows u) (st\<lparr>users := u\<rparr>)"

subsection \<open>The reconciliation engine\<close>

text \<open>The additive merge of lines 425 to 427 and 429 to 431, for a key function.\<close>

definition merge_by :: "('a \<Rightarrow> 'k) \<Rightarrow> 'a list \<Rightarrow> 'a list \<Rightarrow> 'a list" where
  "merge_by key existing incoming =
     jsmap_values
       (foldl (\<lambda>m x. jsmap_set m (key x) x) (jsmap_of (map (\<lambda>x. (key x, x)) existing)) incoming)"

text \<open>What the outside world does during one call of \<^verbatim>\<open>handleMassImport\<close>.\<close>

record io =
  cloud_on :: bool
  w_users :: fault
  w_files :: fault
  r_users :: remote_result
  r_files :: remote_result

text \<open>\<^verbatim>\<open>nUsers\<close> and \<^verbatim>\<open>nFiles\<close> of \<^verbatim>\<open>handleMassImport\<close>, lines 421 to 432: the
  incoming collection in destructive mode, the additive merge with the live one
  otherwise.\<close>

definition nUsers :: "import_data \<Rightarrow> bool \<Rightarrow> user list \<Rightarrow> user list" where
  "nUsers data isDestructive live =
     (if isDestructive then d_users data
      else merge_by (\<lambda>u. normCNIC (cnic u)) live (d_users data))"

definition nFiles :: "import_data \<Rightarrow> bool \<Rightarrow> property_file list \<Rightarrow> property_file list" where
  "nFiles data isDestructive live =
     (if isDestructive then d_files data else merge_by fileNo live (d_files data))"

text \<open>\<^verbatim>\<open>handleMassImport\<close>, lines 419 to 445. A rejected write ends the function where
  it stands: the state was set before.\<close>

definition handleMassImport :: "io \<Rightarrow> import_data \<Rightarrow> bool \<Rightarrow> ('n, 'm) app \<Rightarrow> ('n, 'm) app" where
  "handleMassImport w data isDestructive st =
     (let st1 = st\<lparr> users := nUsers data isDestructive (users st),
                    allFiles := nFiles data isDestructive (allFiles st) \<rparr>
      in case setItem (w_users w) (\<lambda>s. s\<lparr>s_users := Some (users st1)\<rparr>) st1 of
           None \<Rightarrow> st1
         | Some st2 \<Rightarrow>
             (case setItem (w_files w) (\<lambda>s. s\<lparr>s_files := Some (allFiles st1)\<rparr>) st2 of
                None \<Rightarrow> st2
              | Some st3 \<Rightarrow>
                  syncToCloud (cloud_on w) (r_files w) ''files'' (FileRows (allFiles st1))
                    (syncToCloud (cloud_on w) (r_users w) ''users'' (UserRows (users st1)) st3)))"

text \<open>\<^verbatim>\<open>reader.onload\<close> of \<^verbatim>\<open>handleMasterSync\<close>, lines 67 to 166, with
  \<^verbatim>\<open>onImportFullDatabase\<close> bound to \<^verbatim>\<open>handleMassImport\<close> as line 517 binds it. The
  first component is the alert shown.\<close>

datatype alert = FormatError | SyncSuccessful nat

definition handleMasterSync ::
  "(nat \<Rightarrow> int) \<Rightarrow> io \<Rightarrow> string \<Rightarrow> ('n, 'm) app \<Rightarrow> alert \<times> ('n, 'm) app" where
  "handleMasterSync clock w text st =
     (case build_entities clock text of
        None \<Rightarrow> (FormatError, st)
      | Some data \<Rightarrow> (SyncSuccessful (length (d_files data)), handleMassImport w data True st))"

text \<open>The object spread \<^verbatim>\<open>{ ...existing, ...u, status: 'Active' }\<close> of line 463: a field
  that \<open>u\<close> carries replaces the field of \<open>existing\<close>.\<close>

definition over :: "'a option \<Rightarrow> 'a option \<Rightarrow> 'a option" where
  "over a b = (case b of None \<Rightarrow> a | Some v \<Rightarrow> Some v)"

definition spread_user :: "user \<Rightarrow> user \<Rightarrow> user" where
  "spread_user existing u =
     \<lparr> id_user = over (id_user existing) (id_user u),
       cnic = cnic u,
       name = over (name existing) (name u),
       email = over (email existing) (email u),
       phone = over (phone existing) (phone u),
       role = over (role existing) (role u),
       status = Some ''Active'',
       password = over (password existing) (password u) \<rparr>"

text \<open>\<^verbatim>\<open>handleRegister\<close>, lines 457 to 470.\<close>

definition handleRegister ::
  "bool \<Rightarrow> remote_result \<Rightarrow> user \<Rightarrow> ('n, 'm) app \<Rightarrow> ('n, 'm) app" where
  "handleRegister cloud r u st =
     (let exists = find (\<lambda>existing. normCNIC (cnic existing) = normCNIC (cnic u)) (users st);
          newUsers =
            (if exists \<noteq> None
             then map (\<lambda>existing. if cnic existing = cnic u then spread_user existing u else existing)
                    (users st)
             else users st @ [u])
      in handleUpdateUsers cloud r newUsers st)"

text \<open>\<^verbatim>\<open>userCnicNorm\<close> and \<^verbatim>\<open>userFiles\<close>, lines 479 and 480.\<close>

definition userCnicNorm :: "user option \<Rightarrow> string" where
  "userCnicNorm usr = (case usr of None \<Rightarrow> [] | Some u \<Rightarrow> normCNIC (cnic u))"

definition userFiles :: "user option \<Rightarrow> property_file list \<Rightarrow> property_file list" where
  "userFiles usr files = filter (\<lambda>f. normCNIC (ownerCNIC f) = userCnicNorm usr) files"

subsection \<open>Boot\<close>







subsection \<open>Notions used to state the properties\<close>

text \<open>The rows of a file that the entity builder does not skip (line 102), the merge key
  and the account code of a row, and the rows that contribute to an account, in file
  order. A row is a line with its index among the lines after the header.\<close>

definition key_of :: "string list \<Rightarrow> nat \<times> string \<Rightarrow> string" where
  "key_of normH row = normCNIC (rawCNIC_of normH (parseCSVLine (snd row)))"

definition code_of :: "string list \<Rightarrow> nat \<times> string \<Rightarrow> string" where
  "code_of normH row = itemCode_of normH (parseCSVLine (snd row))"

definition contributing :: "string list \<Rightarrow> (nat \<times> string) list \<Rightarrow> (nat \<times> string) list" where
  "contributing normH rows = filter (\<lambda>r. key_of normH r \<noteq> [] \<and> code_of normH r \<noteq> []) rows"

definition rows_of_account :: "string list \<Rightarrow> string \<Rightarrow> (nat \<times> string) list \<Rightarrow> (nat \<times> string) list" where
  "rows_of_account normH code rows = filter (\<lambda>r. code_of normH r = code) (contributing normH rows)"

text \<open>The sum of a sequence of amounts from left to right, starting from zero.\<close>

definition num_sum :: "number list \<Rightarrow> number" where
  "num_sum xs = foldl num_add (Fin 0) xs"

text \<open>The transaction that a row adds to an account of the given valuation.\<close>

definition transaction_of :: "string list \<Rightarrow> (nat \<Rightarrow> int) \<Rightarrow> number \<Rightarrow> nat \<times> string \<Rightarrow> transaction" where
  "transaction_of normH clock ptotal row =
     new_transaction normH (clock (fst row)) (fst row) (parseCSVLine (snd row)) ptotal"

text \<open>What the import fixes in every member it builds.\<close>

definition imported_member :: "user \<Rightarrow> bool" where
  "imported_member u \<longleftrightarrow>
     role u = Some ''CLIENT'' \<and> status u = Some ''Active'' \<and> password u = Some ''password123''
     \<and> email u = Some (normCNIC (cnic u) @ ''@dinproperties.com.pk'')
     \<and> id_user u = Some (''user-'' @ normCNIC (cnic u))"

text \<open>The state of the two maps after the rows \<open>pre\<close>.\<close>

definition users_ok :: "string list \<Rightarrow> (nat \<times> string) list \<Rightarrow> userMap \<Rightarrow> bool" where
  "users_ok normH pre userMap \<longleftrightarrow>
     distinct (map fst userMap)
     \<and> set (map fst userMap) = set (map (key_of normH) (contributing normH pre))
     \<and> list_all (\<lambda>e. fst e = normCNIC (cnic (snd e)) \<and> imported_member (snd e)) userMap"

definition account_ok ::
  "string list \<Rightarrow> (nat \<Rightarrow> int) \<Rightarrow> (nat \<times> string) list \<Rightarrow> string \<times> property_file \<Rightarrow> bool" where
  "account_ok normH clock pre e \<longleftrightarrow>
     fileNo (snd e) = fst e
     \<and> transactions (snd e) =
         map (transaction_of normH clock (plotValue (snd e))) (rows_of_account normH (fst e) pre)
     \<and> paymentReceived (snd e) =
         num_sum (map (\<lambda>r. paidVal_of normH (parseCSVLine (snd r))) (rows_of_account normH (fst e) pre))
     \<and> balance (snd e) =
         num_sum (map (\<lambda>r. osVal_of normH (parseCSVLine (snd r))) (rows_of_account normH (fst e) pre))"

definition files_ok :: "string list \<Rightarrow> (nat \<Rightarrow> int) \<Rightarrow> (nat \<times> string) list \<Rightarrow> fileMap \<Rightarrow> bool" where
  "files_ok normH clock pre fileMap \<longleftrightarrow>
     distinct (map fst fileMap)
     \<and> set (map fst fileMap) = set (map (code_of normH) (contributing normH pre))
     \<and> list_all (account_ok normH clock pre) fileMap"

text \<open>An account with the \<open>transid\<close> of every transaction set to zero: what is left of
  an account when the clock readings of the import are put aside.\<close>

definition untimed_tx :: "transaction \<Rightarrow> transaction" where
  "untimed_tx t = t\<lparr>transid := 0\<rparr>"

definition untimed :: "property_file \<Rightarrow> property_file" where
  "untimed f = f\<lparr>transactions := map untimed_tx (transactions f)\<rparr>"

definition untimed_maps :: "userMap \<times> fileMap \<Rightarrow> userMap \<times> fileMap" where
  "untimed_maps maps = (fst maps, map (\<lambda>e. (fst e, untimed (snd e))) (snd maps))"


subsection \<open>Example values\<close>

text \<open>A member as the import builds it, and a boot in which every read answers, no
  session is stored and no remote store is configured.\<close>

definition member_a :: user where
  "member_a =
     \<lparr> id_user = Some ''user-1234567890123'', cnic = ''12345-6789012-3'',
       name = Some ''SAP Member'', email = Some ''1234567890123@dinproperties.com.pk'',
       phone = Some ''-'', role = Some ''CLIENT'', status = Some ''Active'',
       password = Some ''password123'' \<rparr>"




text \<open>A second member, one import that replaces the Registry by the first member, one
  that adds the second, and two behaviours of the outside world: the remote store throws
  on every upsert, or everything succeeds.\<close>

definition member_b :: user where
  "member_b =
     \<lparr> id_user = Some ''user-3520211111111'', cnic = ''35202-1111111-1'',
       name = Some ''SAP Member'', email = Some ''3520211111111@dinproperties.com.pk'',
       phone = Some ''-'', role = Some ''CLIENT'', status = Some ''Active'',
       password = Some ''password123'' \<rparr>"




definition all_well :: io where
  "all_well =
     \<lparr> cloud_on = True, w_users = NoFault, w_files = NoFault, r_users = Ack, r_files = Ack \<rparr>"

text \<open>A Registry that holds the first member, and three registrations for it: one that
  carries the same raw identity and a credential only, one that carries the identity
  without its dashes, and one that carries the same raw identity with every field of a
  sign-up form.\<close>

definition registry_a :: "(unit, unit) app" where
  "registry_a = initial_app\<lparr>users := [member_a]\<rparr>"

definition claim_a :: user where
  "claim_a =
     \<lparr> id_user = None, cnic = ''12345-6789012-3'', name = None, email = None, phone = None,
       role = None, status = None, password = Some ''s3cret'' \<rparr>"

definition claim_digits :: user where
  "claim_digits = claim_a\<lparr>cnic := ''1234567890123''\<rparr>"

definition signup_a :: user where
  "signup_a =
     \<lparr> id_user = Some ''u-77'', cnic = ''12345-6789012-3'', name = Some ''Ali Khan'',
       email = Some ''ali@example.com'', phone = Some ''0300-1234567'', role = Some ''CLIENT'',
       status = Some ''Pending'', password = Some ''s3cret'' \<rparr>"

text \<open>The file of the concrete scenario: the header
  \<^verbatim>\<open>OCNIC,OName,ItemCode,DocTotal,ReconSum,BalDueDeb\<close> and two rows of the same identity
  and account, with the paid amounts 1000 and 500 and the balances due 200 and 100; the
  member and the account that the import builds from it.\<close>

definition scenario_header :: string where
  "scenario_header = ''OCNIC,OName,ItemCode,DocTotal,ReconSum,BalDueDeb''"

definition scenario_normH :: "string list" where
  "scenario_normH = [''ocnic'', ''oname'', ''itemcode'', ''doctotal'', ''reconsum'', ''balduedeb'']"

definition scenario_row1 :: string where
  "scenario_row1 = ''12345-6789012-3,Ali Khan,P-001,5000,1000,200''"

definition scenario_row2 :: string where
  "scenario_row2 = ''12345-6789012-3,Ali Khan,P-001,5000,500,100''"

definition scenario :: string where
  "scenario = scenario_header @ [CHR 0x0A] @ scenario_row1 @ [CHR 0x0A] @ scenario_row2"

definition scenario_member :: user where
  "scenario_member = member_a\<lparr>name := Some ''Ali Khan''\<rparr>"

definition scenario_transaction :: "int \<Rightarrow> nat \<Rightarrow> number \<Rightarrow> number \<Rightarrow> transaction" where
  "scenario_transaction now idx paid due =
     \<lparr> seq = idx, transid = now + int idx, line_id = 0, shortname = ''P-001'', duedate = ''-'',
       receivable_tx = Fin 0, u_intno = Fin 0, u_intname = ''INSTALLMENT'', transtype = ''13'',
       itemcode = ''P-001'', plottype = ''Res'', currency = ''PKR'', description = [],
       doctotal = Fin 5000, status_tx = ''Synced'', balance_tx = Fin 0, balduedeb = due,
       paysrc = Fin 0, amount_paid = paid, receipt_date = None, mode = None,
       surcharge_tx = Fin 0 \<rparr>"

definition scenario_account :: "(nat \<Rightarrow> int) \<Rightarrow> property_file" where
  "scenario_account clock =
     \<lparr> fileNo = ''P-001'', currencyNo = ''-'', plotSize = ''Plot'', plotValue = Fin 5000,
       balance = Fin 300, receivable = Fin 0, totalReceivable = Fin 0,
       paymentReceived = Fin 1500, surcharge = Fin 0, overdue = Fin 0,
       ownerName = Some ''Ali Khan'', ownerCNIC = ''12345-6789012-3'', fatherName = ''-'',
       cellNo = ''-'', regDate = ''-'', address = ''-'', plotNo = ''-'', block = ''-'',
       park = ''-'', corner = ''-'', mainBoulevard = ''-'',
       transactions =
         [scenario_transaction (clock 0) 0 (Fin 1000) (Fin 200),
          scenario_transaction (clock 1) 1 (Fin 500) (Fin 100)] \<rparr>"

text \<open>A Registry that holds the member and the account of the scenario, and a file whose
  header names neither an identity column nor an account code column.\<close>

definition live_registry :: "(unit, unit) app" where
  "live_registry =
     initial_app\<lparr>users := [scenario_member], allFiles := [scenario_account (\<lambda>i. 0)]\<rparr>"

definition foreign_file :: string where
  "foreign_file = ''Name,Amount'' @ [CHR 0x0A] @ ''Ali Khan,100''"

text \<open>An additive upload: a second member with a second account, and a newer record of
  the account of the scenario.\<close>

definition account_b :: property_file where
  "account_b =
     (scenario_account (\<lambda>i. 0))
       \<lparr> fileNo := ''P-002'', ownerName := Some ''SAP Member'', ownerCNIC := ''35202-1111111-1'',
         balance := Fin 0, paymentReceived := Fin 0, transactions := [] \<rparr>"

definition account_a_newer :: property_file where
  "account_a_newer = (scenario_account (\<lambda>i. 7))\<lparr>plotSize := ''10 Marla'', transactions := []\<rparr>"

definition upload_b :: import_data where
  "upload_b = \<lparr> d_users = [member_b], d_files = [account_b, account_a_newer] \<rparr>"

definition upload_new :: import_data where
  "upload_new = \<lparr> d_users = [member_b], d_files = [account_b] \<rparr>"

text \<open>A file with two rows whose identities differ only in the case of the check
  character.\<close>

definition case_row1 :: string where
  "case_row1 = ''12345-x,Member One,P-001,5000,1000,200''"

definition case_row2 :: string where
  "case_row2 = ''12345-X,Member Two,P-002,5000,500,100''"

definition case_file :: string where
  "case_file = scenario_header @ [CHR 0x0A] @ case_row1 @ [CHR 0x0A] @ case_row2"

section \<open>Properties\<close>

subsection \<open>Numeric normalisation\<close>

lemmas number_eval =
  parseVal_def toUpperCase_def upper_char_def parseFloat_def unsigned_literal_def
  is_digit_def is_space_def digits_val_def exponent_def scale10_def or_zero_def Let_def

lemma parseVal_not_NaN: "parseVal v \<noteq> NaN"
  by (auto simp: parseVal_def or_zero_def split: option.splits)

lemma parseVal_fallback:
  "parseFloat (filter (\<lambda>c. c \<noteq> CHR ''('' \<and> c \<noteq> CHR '')'') (filter (\<lambda>c. c \<noteq> CHR '','') s)) = NaN
   \<Longrightarrow> parseVal (Some s) = Fin 0"
  by (simp add: parseVal_def or_zero_def)

text \<open>Claim C6. Numeric normalisation returns a number for every raw text and for the
  undefined cell: \<open>parseVal\<close> is a total function with no exception among its results. The
  placeholders \<^verbatim>\<open>NULL\<close>, \<^verbatim>\<open>-\<close> and the empty string give 0, \<^verbatim>\<open>1,234.56\<close> gives
  1234.56, \<^verbatim>\<open>(500)\<close> gives 500 (the parentheses are removed and the amount is read as
  positive), the result is never NaN, and a text that \<^verbatim>\<open>parseFloat\<close> cannot read, once
  its commas and parentheses are removed, gives 0.\<close>

theorem parseVal_degrades_to_zero:
  "parseVal None = Fin 0 \<and> parseVal (Some []) = Fin 0 \<and> parseVal (Some ''NULL'') = Fin 0
   \<and> parseVal (Some ''-'') = Fin 0
   \<and> parseVal (Some ''1,234.56'') = Fin (123456 / 100)
   \<and> parseVal (Some ''(500)'') = Fin 500
   \<and> (\<forall>v. parseVal v \<noteq> NaN)
   \<and> (\<forall>s. parseFloat (filter (\<lambda>c. c \<noteq> CHR ''('' \<and> c \<noteq> CHR '')'') (filter (\<lambda>c. c \<noteq> CHR '','') s)) = NaN
          \<longrightarrow> parseVal (Some s) = Fin 0)"
proof -
  have "parseVal None = Fin 0" by (simp add: parseVal_def)
  moreover have "parseVal (Some []) = Fin 0" by (simp add: parseVal_def)
  moreover have "parseVal (Some ''NULL'') = Fin 0" by (simp add: number_eval)
  moreover have "parseVal (Some ''-'') = Fin 0" by (simp add: parseVal_def)
  moreover have "parseVal (Some ''1,234.56'') = Fin (123456 / 100)" by (simp add: number_eval)
  moreover have "parseVal (Some ''(500)'') = Fin 500" by (simp add: number_eval)
  ultimately show ?thesis using parseVal_not_NaN parseVal_fallback by blast
qed

theorem parseVal_degrades_to_zero_witness:
  "parseFloat (filter (\<lambda>c. c \<noteq> CHR ''('' \<and> c \<noteq> CHR '')'') (filter (\<lambda>c. c \<noteq> CHR '','') ''n/a'')) = NaN
   \<and> parseVal (Some ''n/a'') = Fin 0"
proof -
  have h: "parseFloat (filter (\<lambda>c. c \<noteq> CHR ''('' \<and> c \<noteq> CHR '')'') (filter (\<lambda>c. c \<noteq> CHR '','') ''n/a'')) = NaN"
    by (simp add: number_eval)
  from parseVal_degrades_to_zero have
    "parseFloat (filter (\<lambda>c. c \<noteq> CHR ''('' \<and> c \<noteq> CHR '')'') (filter (\<lambda>c. c \<noteq> CHR '','') ''n/a'')) = NaN
       \<longrightarrow> parseVal (Some ''n/a'') = Fin 0"
    by blast
  with h show ?thesis by blast
qed

subsection \<open>Boot\<close>






subsection \<open>Persistence\<close>

lemma syncToCloud_registry:
  "users (syncToCloud c r t d st) = users st \<and> allFiles (syncToCloud c r t d st) = allFiles st
   \<and> local_store (syncToCloud c r t d st) = local_store st"
  by (cases r) (simp_all add: syncToCloud_def)



lemma syncToCloud_console:
  "set (console st) \<subseteq> set (console (syncToCloud c r t d st))"
  by (cases r) (auto simp: syncToCloud_def)

lemma handleMassImport_registry:
  "users (handleMassImport w d m st) = nUsers d m (users st)
   \<and> allFiles (handleMassImport w d m st) = nFiles d m (allFiles st)"
  by (cases "w_users w"; cases "w_files w")
     (simp_all add: handleMassImport_def setItem_def Let_def syncToCloud_registry)

lemma handleMassImport_written:
  assumes "w_users w = NoFault" "w_files w = NoFault"
  shows "local_store (handleMassImport w d m st) =
     (local_store st)\<lparr> s_users := Some (nUsers d m (users st)),
                       s_files := Some (nFiles d m (allFiles st)) \<rparr>"
  using assms
  by (simp add: handleMassImport_def setItem_def Let_def syncToCloud_registry)







subsection \<open>Registration\<close>

lemma handleUpdateUsers_users: "users (handleUpdateUsers c r us st) = us"
  by (cases r) (simp_all add: handleUpdateUsers_def syncToCloud_def)

lemma handleRegister_append:
  assumes "\<forall>e \<in> set (users st). normCNIC (cnic e) \<noteq> normCNIC (cnic u)"
  shows "users (handleRegister c r u st) = users st @ [u]"
proof -
  from assms have "find (\<lambda>e. normCNIC (cnic e) = normCNIC (cnic u)) (users st) = None"
    by (auto simp: find_None_iff)
  then show ?thesis
    by (simp add: handleRegister_def Let_def handleUpdateUsers_users)
qed

lemma handleRegister_overlay:
  assumes "\<exists>e \<in> set (users st). cnic e = cnic u"
  shows "users (handleRegister c r u st) =
     map (\<lambda>e. if cnic e = cnic u then spread_user e u else e) (users st)"
proof -
  from assms have "find (\<lambda>e. normCNIC (cnic e) = normCNIC (cnic u)) (users st) \<noteq> None"
    by (auto simp: find_None_iff)
  then show ?thesis
    by (simp add: handleRegister_def Let_def handleUpdateUsers_users)
qed

text \<open>Claim C2, as stated, fails. The Registry holds a member with the raw identity
  \<^verbatim>\<open>12345-6789012-3\<close>. A registration with the raw identity \<^verbatim>\<open>1234567890123\<close>, which
  normalises to the same key, leaves the Registry as it was: the credential is not merged
  and no member is appended. A registration with the same raw identity that carries a
  name replaces the name the import gave.\<close>

theorem register_counterexample:
  "normCNIC (cnic claim_digits) = normCNIC (cnic member_a)
   \<and> users (handleRegister False Ack claim_digits registry_a) = [member_a]
   \<and> password member_a \<noteq> password claim_digits
   \<and> users (handleRegister False Ack signup_a registry_a) = [signup_a\<lparr>status := Some ''Active''\<rparr>]
   \<and> name member_a \<noteq> name signup_a"
  by (simp add: handleRegister_def handleUpdateUsers_def syncToCloud_def Let_def spread_user_def
      over_def registry_a_def initial_app_def member_a_def claim_digits_def claim_a_def
      signup_a_def is_digit_def)

text \<open>Claim C2, amended. For every registration of a user \<open>u\<close>: if no existing member's
  normalised identity equals \<open>u\<close>'s normalised identity, \<open>u\<close> is appended as a new member.
  If some existing member's raw identity string equals \<open>u\<close>'s, every member with that raw
  identity is replaced by the existing record overlaid with \<open>u\<close>, and the other members
  stay as they are: in the overlay the status is \<^verbatim>\<open>Active\<close>, each field that \<open>u\<close> carries,
  the credential among them, replaces the existing one, and each field that \<open>u\<close> does not
  carry survives.\<close>

theorem register_appends_or_overlays:
  "((\<forall>e \<in> set (users st). normCNIC (cnic e) \<noteq> normCNIC (cnic u))
      \<longrightarrow> users (handleRegister c r u st) = users st @ [u])
   \<and> ((\<exists>e \<in> set (users st). cnic e = cnic u)
      \<longrightarrow> users (handleRegister c r u st) =
            map (\<lambda>e. if cnic e = cnic u then spread_user e u else e) (users st))
   \<and> status (spread_user x u) = Some ''Active''
   \<and> cnic (spread_user x u) = cnic u
   \<and> password (spread_user x u) = (case password u of None \<Rightarrow> password x | Some p \<Rightarrow> Some p)
   \<and> id_user (spread_user x u) = (case id_user u of None \<Rightarrow> id_user x | Some p \<Rightarrow> Some p)
   \<and> name (spread_user x u) = (case name u of None \<Rightarrow> name x | Some p \<Rightarrow> Some p)
   \<and> email (spread_user x u) = (case email u of None \<Rightarrow> email x | Some p \<Rightarrow> Some p)
   \<and> phone (spread_user x u) = (case phone u of None \<Rightarrow> phone x | Some p \<Rightarrow> Some p)
   \<and> role (spread_user x u) = (case role u of None \<Rightarrow> role x | Some p \<Rightarrow> Some p)"
  using handleRegister_append [of st u c r] handleRegister_overlay [of st u c r]
  by (simp add: spread_user_def over_def)

theorem register_appends_or_overlays_witness:
  "users registry_a = [member_a]
   \<and> normCNIC (cnic member_a) \<noteq> normCNIC (cnic member_b)
   \<and> users (handleRegister False Ack member_b registry_a) = [member_a, member_b]
   \<and> cnic member_a = cnic claim_a
   \<and> users (handleRegister False Ack claim_a registry_a) = [member_a\<lparr>password := Some ''s3cret''\<rparr>]"
proof -
  have n: "\<forall>e \<in> set (users registry_a). normCNIC (cnic e) \<noteq> normCNIC (cnic member_b)"
    by (simp add: registry_a_def initial_app_def member_a_def member_b_def is_digit_def)
  have m: "\<exists>e \<in> set (users registry_a). cnic e = cnic claim_a"
    by (simp add: registry_a_def initial_app_def member_a_def claim_a_def)
  have s: "spread_user member_a claim_a = member_a\<lparr>password := Some ''s3cret''\<rparr>"
    by (simp add: spread_user_def over_def member_a_def claim_a_def)
  have u: "users registry_a = [member_a]" by (simp add: registry_a_def initial_app_def)
  have c: "cnic member_a = cnic claim_a" by (simp add: member_a_def claim_a_def)
  have d: "normCNIC (cnic member_a) \<noteq> normCNIC (cnic member_b)"
    using n by (simp add: u)
  from n m register_appends_or_overlays [of registry_a member_b False Ack]
    register_appends_or_overlays [of registry_a claim_a False Ack]
  show ?thesis using d by (simp add: u s c)
qed

subsection \<open>Maps in insertion order\<close>

lemma jsmap_set_new: "\<not> jsmap_has m k \<Longrightarrow> jsmap_set m k v = m @ [(k, v)]"
  by (simp add: jsmap_set_def)

lemma jsmap_set_old:
  "jsmap_has m k \<Longrightarrow> jsmap_set m k v = map (\<lambda>e. if fst e = k then (k, v) else e) m"
  by (simp add: jsmap_set_def)

lemma jsmap_set_keys:
  "map fst (jsmap_set m k v) = (if jsmap_has m k then map fst m else map fst m @ [k])"
proof -
  have "map fst (map (\<lambda>e. if fst e = k then (k, v) else e) m) = map fst m"
    by (induction m) auto
  then show ?thesis by (simp add: jsmap_set_def)
qed

lemma jsmap_get_None: "jsmap_get m k = None \<longleftrightarrow> \<not> jsmap_has m k"
  by (simp add: jsmap_get_def jsmap_has_def map_of_eq_None_iff)

lemma jsmap_get_Some:
  "distinct (map fst m) \<Longrightarrow> jsmap_get m k = Some v \<longleftrightarrow> (k, v) \<in> set m"
  by (simp add: jsmap_get_def)

lemma jsmap_get_new: "\<not> jsmap_has m k \<Longrightarrow> jsmap_get (m @ [(k, v)]) k = Some v"
  by (simp add: jsmap_get_def jsmap_has_def map_add_def map_of_eq_None_iff [THEN iffD2])

lemma list_all_replace:
  assumes "list_all P m" "Q (k, v)" "\<And>e. e \<in> set m \<Longrightarrow> fst e \<noteq> k \<Longrightarrow> P e \<Longrightarrow> Q e"
  shows "list_all Q (map (\<lambda>e. if fst e = k then (k, v) else e) m)"
  using assms by (induction m) auto

subsection \<open>The entity builder\<close>

lemma contributing_snoc:
  "contributing normH (pre @ [row]) =
     (if key_of normH row \<noteq> [] \<and> code_of normH row \<noteq> [] then contributing normH pre @ [row]
      else contributing normH pre)"
  by (simp add: contributing_def)

lemma rows_of_account_snoc:
  "rows_of_account normH k (pre @ [row]) =
     (if key_of normH row \<noteq> [] \<and> code_of normH row \<noteq> [] \<and> code_of normH row = k
      then rows_of_account normH k pre @ [row] else rows_of_account normH k pre)"
  by (simp add: rows_of_account_def contributing_snoc)

lemma rows_of_account_unseen:
  "k \<notin> set (map (code_of normH) (contributing normH pre)) \<Longrightarrow> rows_of_account normH k pre = []"
  by (auto simp: rows_of_account_def filter_empty_conv)

lemma new_user_imported:
  "fst (normCNIC (rawCNIC_of normH cols), new_user normH cols)
     = normCNIC (cnic (snd (normCNIC (rawCNIC_of normH cols), new_user normH cols)))
   \<and> imported_member (snd (normCNIC (rawCNIC_of normH cols), new_user normH cols))"
  by (simp add: new_user_def imported_member_def)

lemma row_user_ok:
  assumes "users_ok normH pre userMap" "key_of normH row \<noteq> []" "code_of normH row \<noteq> []"
  shows "users_ok normH (pre @ [row]) (row_user normH (parseCSVLine (snd row)) userMap)"
proof (cases "jsmap_has userMap (key_of normH row)")
  case True
  then have "row_user normH (parseCSVLine (snd row)) userMap = userMap"
    by (simp add: row_user_def key_of_def)
  moreover from True assms(1) have "key_of normH row \<in> set (map (key_of normH) (contributing normH pre))"
    by (simp add: users_ok_def jsmap_has_def)
  ultimately show ?thesis
    using assms by (auto simp: users_ok_def contributing_snoc)
next
  case False
  then have r: "row_user normH (parseCSVLine (snd row)) userMap =
      userMap @ [(key_of normH row, new_user normH (parseCSVLine (snd row)))]"
    by (simp add: row_user_def key_of_def jsmap_set_new)
  from False have "key_of normH row \<notin> set (map fst userMap)"
    by (simp add: jsmap_has_def)
  then show ?thesis
    using assms new_user_imported [of normH "parseCSVLine (snd row)"]
    by (auto simp: r users_ok_def contributing_snoc key_of_def)
qed

lemma jsmap_has_set: "jsmap_has (jsmap_set m k v) k"
  unfolding jsmap_has_def jsmap_set_keys by simp

lemma row_user_has:
  "jsmap_has (row_user normH (parseCSVLine (snd row)) userMap) (key_of normH row)"
  by (simp add: row_user_def key_of_def jsmap_has_set)

lemma account_ok_other:
  assumes "account_ok normH clock pre e" "fst e \<noteq> code_of normH row"
  shows "account_ok normH clock (pre @ [row]) e"
  using assms by (simp add: account_ok_def rows_of_account_snoc)

lemma account_ok_skip:
  assumes "account_ok normH clock pre e" "\<not> (key_of normH row \<noteq> [] \<and> code_of normH row \<noteq> [])"
  shows "account_ok normH clock (pre @ [row]) e"
  using assms by (auto simp: account_ok_def rows_of_account_snoc)

lemma num_sum_snoc: "num_sum (xs @ [x]) = num_add (num_sum xs) x"
  by (simp add: num_sum_def)

lemma account_ok_post:
  assumes "account_ok normH clock pre (k, prop)" "k = code_of normH row"
    "key_of normH row \<noteq> []" "code_of normH row \<noteq> []"
  shows "account_ok normH clock (pre @ [row])
     (k, prop\<lparr> paymentReceived := num_add (paymentReceived prop) (paidVal_of normH (parseCSVLine (snd row))),
                 balance := num_add (balance prop) (osVal_of normH (parseCSVLine (snd row))),
                 transactions := transactions prop
                   @ [new_transaction normH (clock (fst row)) (fst row) (parseCSVLine (snd row))
                        (plotValue prop)] \<rparr>)"
  using assms
  by (simp add: account_ok_def rows_of_account_snoc num_sum_snoc transaction_of_def)

lemma account_ok_new:
  assumes "code_of normH row \<notin> set (map (code_of normH) (contributing normH pre))"
  shows "account_ok normH clock pre
     (code_of normH row, new_file normH (parseCSVLine (snd row)) owner_name)"
  using rows_of_account_unseen [OF assms]
  by (simp add: account_ok_def new_file_def code_of_def num_sum_def)

lemma row_file_ok:
  assumes "files_ok normH clock pre fileMap"
    "jsmap_has userMap (key_of normH row)"
  shows "\<exists>fileMap1. row_file normH (parseCSVLine (snd row)) userMap fileMap = Some fileMap1
     \<and> distinct (map fst fileMap1)
     \<and> set (map fst fileMap1) = insert (code_of normH row) (set (map (code_of normH) (contributing normH pre)))
     \<and> list_all (account_ok normH clock pre) fileMap1"
proof (cases "jsmap_has fileMap (code_of normH row)")
  case True
  then have "row_file normH (parseCSVLine (snd row)) userMap fileMap = Some fileMap"
    by (simp add: row_file_def code_of_def)
  moreover from True assms(1) have "code_of normH row \<in> set (map (code_of normH) (contributing normH pre))"
    by (simp add: files_ok_def jsmap_has_def)
  ultimately show ?thesis
    using assms(1) by (auto simp: files_ok_def)
next
  case False
  from assms(2) obtain owner where o: "jsmap_get userMap (key_of normH row) = Some owner"
    using jsmap_get_None [of userMap "key_of normH row"] by (cases "jsmap_get userMap (key_of normH row)") auto
  from False have n: "code_of normH row \<notin> set (map fst fileMap)"
    by (simp add: jsmap_has_def)
  with assms(1) have u: "code_of normH row \<notin> set (map (code_of normH) (contributing normH pre))"
    by (simp add: files_ok_def)
  from False o have r: "row_file normH (parseCSVLine (snd row)) userMap fileMap =
      Some (fileMap @ [(code_of normH row, new_file normH (parseCSVLine (snd row)) (name owner))])"
    by (simp add: row_file_def code_of_def key_of_def jsmap_set_new)
  show ?thesis
    using assms(1) n account_ok_new [OF u, of clock "name owner"]
    by (auto simp: r files_ok_def)
qed


lemma row_post_ok:
  assumes "distinct (map fst fileMap1)"
    "set (map fst fileMap1) = insert (code_of normH row) (set (map (code_of normH) (contributing normH pre)))"
    "list_all (account_ok normH clock pre) fileMap1"
    "key_of normH row \<noteq> []" "code_of normH row \<noteq> []"
  shows "\<exists>fileMap2. row_post normH (clock (fst row)) (fst row) (parseCSVLine (snd row)) fileMap1 = Some fileMap2
     \<and> files_ok normH clock (pre @ [row]) fileMap2"
proof -
  have h: "jsmap_has fileMap1 (code_of normH row)"
    using assms(2) by (simp add: jsmap_has_def)
  then obtain acct where g: "jsmap_get fileMap1 (code_of normH row) = Some acct"
    using jsmap_get_None [of fileMap1 "code_of normH row"]
    by (cases "jsmap_get fileMap1 (code_of normH row)") auto
  with assms(1) have m: "(code_of normH row, acct) \<in> set fileMap1"
    by (simp add: jsmap_get_Some)
  with assms(3) have a: "account_ok normH clock pre (code_of normH row, acct)"
    by (auto simp: list_all_iff)
  define acct' where "acct' =
     acct\<lparr> paymentReceived := num_add (paymentReceived acct) (paidVal_of normH (parseCSVLine (snd row))),
            balance := num_add (balance acct) (osVal_of normH (parseCSVLine (snd row))),
            transactions := transactions acct
              @ [new_transaction normH (clock (fst row)) (fst row) (parseCSVLine (snd row))
                   (plotValue acct)] \<rparr>"
  have p: "account_ok normH clock (pre @ [row]) (code_of normH row, acct')"
    unfolding acct'_def using account_ok_post [OF a refl assms(4,5)] .
  have r: "row_post normH (clock (fst row)) (fst row) (parseCSVLine (snd row)) fileMap1 =
      Some (map (\<lambda>e. if fst e = code_of normH row then (code_of normH row, acct') else e) fileMap1)"
    using g h by (simp add: row_post_def code_of_def jsmap_set_old acct'_def)
  have k: "map fst (map (\<lambda>e. if fst e = code_of normH row then (code_of normH row, acct') else e) fileMap1)
      = map fst fileMap1"
    by (induction fileMap1) auto
  have l: "list_all (account_ok normH clock (pre @ [row]))
      (map (\<lambda>e. if fst e = code_of normH row then (code_of normH row, acct') else e) fileMap1)"
    using assms(3) p
  proof (rule list_all_replace)
    fix e assume "e \<in> set fileMap1" "fst e \<noteq> code_of normH row" "account_ok normH clock pre e"
    then show "account_ok normH clock (pre @ [row]) e" by (simp add: account_ok_other)
  qed
  have d: "distinct (map fst (map (\<lambda>e. if fst e = code_of normH row then (code_of normH row, acct') else e) fileMap1))"
    using assms(1) by (simp only: k)
  have s: "set (map fst (map (\<lambda>e. if fst e = code_of normH row then (code_of normH row, acct') else e) fileMap1))
      = set (map (code_of normH) (contributing normH (pre @ [row])))"
    using assms(2,4,5) by (simp only: k) (simp add: contributing_snoc)
  show ?thesis
    unfolding r files_ok_def using d s l by blast
qed

lemma files_ok_skip:
  assumes "files_ok normH clock pre fileMap" "\<not> (key_of normH row \<noteq> [] \<and> code_of normH row \<noteq> [])"
  shows "files_ok normH clock (pre @ [row]) fileMap"
proof -
  have "list_all (account_ok normH clock (pre @ [row])) fileMap"
    using assms by (auto simp: files_ok_def list_all_iff intro: account_ok_skip)
  then show ?thesis
    using assms by (auto simp: files_ok_def contributing_snoc)
qed

lemma users_ok_skip:
  assumes "users_ok normH pre userMap" "\<not> (key_of normH row \<noteq> [] \<and> code_of normH row \<noteq> [])"
  shows "users_ok normH (pre @ [row]) userMap"
  using assms by (auto simp: users_ok_def contributing_snoc)

lemma process_row_ok:
  assumes "users_ok normH pre (fst maps)" "files_ok normH clock pre (snd maps)"
  shows "\<exists>maps'. process_row normH clock maps row = Some maps'
     \<and> users_ok normH (pre @ [row]) (fst maps') \<and> files_ok normH clock (pre @ [row]) (snd maps')"
proof (cases "key_of normH row \<noteq> [] \<and> code_of normH row \<noteq> []")
  case False
  then have "process_row normH clock maps row = Some maps"
    by (auto simp: process_row_def Let_def key_of_def code_of_def)
  then show ?thesis
    using assms False users_ok_skip files_ok_skip by metis
next
  case True
  then have t: "key_of normH row \<noteq> []" "code_of normH row \<noteq> []" by simp_all
  let ?cols = "parseCSVLine (snd row)"
  let ?um = "row_user normH ?cols (fst maps)"
  have u: "users_ok normH (pre @ [row]) ?um"
    using row_user_ok [OF assms(1) t] .
  obtain fm1 where f1: "row_file normH ?cols ?um (snd maps) = Some fm1"
    "distinct (map fst fm1)"
    "set (map fst fm1) = insert (code_of normH row) (set (map (code_of normH) (contributing normH pre)))"
    "list_all (account_ok normH clock pre) fm1"
    using row_file_ok [OF assms(2) row_user_has, of row "fst maps"] by blast
  obtain fm2 where f2: "row_post normH (clock (fst row)) (fst row) ?cols fm1 = Some fm2"
    "files_ok normH clock (pre @ [row]) fm2"
    using row_post_ok [OF f1(2-4) t] by blast
  have "process_row normH clock maps row = Some (?um, fm2)"
    using t f1(1) f2(1) by (simp add: process_row_def Let_def key_of_def code_of_def)
  then show ?thesis using u f2(2) by simp
qed

lemma forEach_rows_ok:
  assumes "users_ok normH pre (fst maps)" "files_ok normH clock pre (snd maps)"
  shows "\<exists>maps'. forEach_rows normH clock maps rows = Some maps'
     \<and> users_ok normH (pre @ rows) (fst maps') \<and> files_ok normH clock (pre @ rows) (snd maps')"
  using assms
proof (induction rows arbitrary: pre maps)
  case Nil
  then show ?case by simp
next
  case (Cons row rows)
  obtain maps1 where m: "process_row normH clock maps row = Some maps1"
    "users_ok normH (pre @ [row]) (fst maps1)" "files_ok normH clock (pre @ [row]) (snd maps1)"
    using process_row_ok [OF Cons.prems] by blast
  from Cons.IH [OF m(2,3)] m(1) show ?case by simp
qed

lemma build_entities_ok:
  assumes "2 \<le> length (file_lines text)"
  shows "\<exists>maps. build_entities clock text =
       Some \<lparr> d_users = map snd (fst maps), d_files = map snd (snd maps) \<rparr>
     \<and> users_ok (header_of (hd (file_lines text))) (data_rows text) (fst maps)
     \<and> files_ok (header_of (hd (file_lines text))) clock (data_rows text) (snd maps)"
proof -
  let ?normH = "header_of (hd (file_lines text))"
  have "users_ok ?normH [] (fst ([], []))" "files_ok ?normH clock [] (snd ([], []))"
    by (simp_all add: users_ok_def files_ok_def contributing_def)
  from forEach_rows_ok [OF this, of "data_rows text"]
  obtain maps where "forEach_rows ?normH clock ([], []) (data_rows text) = Some maps"
    "users_ok ?normH (data_rows text) (fst maps)" "files_ok ?normH clock (data_rows text) (snd maps)"
    by auto
  then show ?thesis
    using assms by (auto simp: build_entities_def jsmap_values_def)
qed

lemma build_entities_None: "build_entities clock text = None \<longleftrightarrow> length (file_lines text) < 2"
proof
  assume "build_entities clock text = None"
  then show "length (file_lines text) < 2"
    using build_entities_ok [of "text" clock] by (cases "length (file_lines text) < 2") auto
next
  assume "length (file_lines text) < 2"
  then show "build_entities clock text = None" by (simp add: build_entities_def)
qed

text \<open>Claim C9. Every member that the import builds has the role \<^verbatim>\<open>CLIENT\<close>, the status
  \<^verbatim>\<open>Active\<close>, the credential placeholder \<^verbatim>\<open>password123\<close> and the e-mail address made of
  its normalised identity followed by \<^verbatim>\<open>@dinproperties.com.pk\<close>, whatever the rows
  hold.\<close>

theorem imported_members_have_fixed_fields:
  assumes "build_entities clock text = Some data"
  shows "\<forall>u \<in> set (d_users data).
     role u = Some ''CLIENT'' \<and> status u = Some ''Active'' \<and> password u = Some ''password123''
     \<and> email u = Some (normCNIC (cnic u) @ ''@dinproperties.com.pk'')"
proof -
  from assms have "2 \<le> length (file_lines text)"
    using build_entities_None [of clock "text"] by (cases "length (file_lines text) < 2") auto
  from build_entities_ok [OF this, of clock]
  obtain maps where c:
    "build_entities clock text = Some \<lparr> d_users = map snd (fst maps), d_files = map snd (snd maps) \<rparr>
     \<and> users_ok (header_of (hd (file_lines text))) (data_rows text) (fst maps)
     \<and> files_ok (header_of (hd (file_lines text))) clock (data_rows text) (snd maps)" ..
  note b = c [THEN conjunct1] and u = c [THEN conjunct2, THEN conjunct1]
  from b assms have m: "data = \<lparr> d_users = map snd (fst maps), d_files = map snd (snd maps) \<rparr>"
    by simp
  from u have "\<forall>e \<in> set (fst maps). imported_member (snd e)"
    by (simp add: users_ok_def list_all_iff)
  then show ?thesis
    by (auto simp: m imported_member_def)
qed

lemma accounts_of_build:
  assumes "files_ok normH clock rows fileMap"
  shows "distinct (map fileNo (map snd fileMap))
     \<and> set (map fileNo (map snd fileMap)) = set (map (code_of normH) (contributing normH rows))
     \<and> (\<forall>f \<in> set (map snd fileMap).
          transactions f = map (transaction_of normH clock (plotValue f)) (rows_of_account normH (fileNo f) rows)
          \<and> paymentReceived f =
              num_sum (map (\<lambda>r. paidVal_of normH (parseCSVLine (snd r))) (rows_of_account normH (fileNo f) rows))
          \<and> balance f =
              num_sum (map (\<lambda>r. osVal_of normH (parseCSVLine (snd r))) (rows_of_account normH (fileNo f) rows)))"
proof -
  from assms have a: "\<forall>e \<in> set fileMap. account_ok normH clock rows e"
    by (simp add: files_ok_def list_all_iff)
  then have k: "map fileNo (map snd fileMap) = map fst fileMap"
    by (auto simp: account_ok_def)
  show ?thesis
    using assms a unfolding k by (auto simp: files_ok_def account_ok_def)
qed

lemma members_of_build:
  assumes "users_ok normH rows userMap"
  shows "distinct (map (\<lambda>u. normCNIC (cnic u)) (map snd userMap))
     \<and> set (map (\<lambda>u. normCNIC (cnic u)) (map snd userMap)) = set (map (key_of normH) (contributing normH rows))"
proof -
  from assms have "\<forall>e \<in> set userMap. fst e = normCNIC (cnic (snd e))"
    by (simp add: users_ok_def list_all_iff)
  then have k: "map (\<lambda>u. normCNIC (cnic u)) (map snd userMap) = map fst userMap"
    by auto
  show ?thesis
    using assms unfolding k by (simp add: users_ok_def)
qed

lemma transaction_of_seq: "map seq (map (transaction_of normH clock t) rows) = map fst rows"
  by (simp add: transaction_of_def new_transaction_def)

lemma transaction_of_paid:
  "map amount_paid (map (transaction_of normH clock t) rows) = map (\<lambda>r. paidVal_of normH (parseCSVLine (snd r))) rows"
  by (simp add: transaction_of_def new_transaction_def)

lemma transaction_of_due:
  "map balduedeb (map (transaction_of normH clock t) rows) = map (\<lambda>r. osVal_of normH (parseCSVLine (snd r))) rows"
  by (simp add: transaction_of_def new_transaction_def)

subsection \<open>The concrete scenario\<close>

lemma col_resolved:
  "getIdx normH names = Some i \<Longrightarrow> col normH arr names = (if i < length arr then Some (trim (arr ! i)) else None)"
  by (simp add: col_def)

lemma col_unresolved: "getIdx normH names = None \<Longrightarrow> col normH arr names = None"
  by (simp add: col_def)

lemma scenario_getIdx:
  "getIdx scenario_normH [''ocnic'', ''cnic'', ''u_ocnic''] = Some 0"
  "getIdx scenario_normH [''oname'', ''ownername'', ''name''] = Some 1"
  "getIdx scenario_normH [''itemcode'', ''item_code'', ''u_itemcode''] = Some 2"
  "getIdx scenario_normH [''doctotal''] = Some 3"
  "getIdx scenario_normH [''reconsum'', ''paid''] = Some 4"
  "getIdx scenario_normH [''balduedeb'', ''balance''] = Some 5"
  "getIdx scenario_normH [''ocell'', ''cellno''] = None"
  "getIdx scenario_normH [''currencyno'', ''currency''] = None"
  "getIdx scenario_normH [''dscription'', ''description'', ''size''] = None"
  "getIdx scenario_normH [''ofatname'', ''fathername''] = None"
  "getIdx scenario_normH [''otrfdate'', ''regdate''] = None"
  "getIdx scenario_normH [''opraddress'', ''address''] = None"
  "getIdx scenario_normH [''plot'', ''plotno'', ''u_plotno''] = None"
  "getIdx scenario_normH [''block'', ''u_block''] = None"
  "getIdx scenario_normH [''park'', ''u_park''] = None"
  "getIdx scenario_normH [''corner'', ''u_corner''] = None"
  "getIdx scenario_normH [''mb'', ''mainboulevard'', ''u_mainbu''] = None"
  "getIdx scenario_normH [''duedate''] = None"
  "getIdx scenario_normH [''receivable''] = None"
  "getIdx scenario_normH [''u_intno''] = None"
  "getIdx scenario_normH [''u_intname''] = None"
  "getIdx scenario_normH [''refdate''] = None"
  "getIdx scenario_normH [''mode''] = None"
  "getIdx scenario_normH [''markup'', ''surcharge''] = None"
  unfolding scenario_normH_def by code_simp+

lemmas scenario_col =
  scenario_getIdx(1-6) [THEN col_resolved] scenario_getIdx(7-24) [THEN col_unresolved]

lemmas row_eval =
  new_user_def new_file_def new_transaction_def rawCNIC_of_def itemCode_of_def paidVal_of_def
  osVal_of_def or_else_def trim_def row_user_def row_file_def row_post_def jsmap_has_def
  jsmap_get_def jsmap_set_def number_eval

lemma scenario_lines: "file_lines scenario = [scenario_header, scenario_row1, scenario_row2]"
  unfolding scenario_def scenario_header_def scenario_row1_def scenario_row2_def by code_simp

lemma scenario_header_of: "header_of scenario_header = scenario_normH"
  unfolding scenario_header_def scenario_normH_def by code_simp

lemma scenario_cols:
  "parseCSVLine scenario_row1 = [''12345-6789012-3'', ''Ali Khan'', ''P-001'', ''5000'', ''1000'', ''200'']"
  "parseCSVLine scenario_row2 = [''12345-6789012-3'', ''Ali Khan'', ''P-001'', ''5000'', ''500'', ''100'']"
  unfolding scenario_row1_def scenario_row2_def by code_simp+

lemma scenario_step1:
  "process_row scenario_normH clock ([], []) (0, scenario_row1) =
     Some ([(''1234567890123'', scenario_member)],
           [(''P-001'', (scenario_account clock)
               \<lparr> balance := Fin 200, paymentReceived := Fin 1000,
                 transactions := [scenario_transaction (clock 0) 0 (Fin 1000) (Fin 200)] \<rparr>)])"
  by (simp add: process_row_def scenario_cols scenario_col row_eval scenario_member_def member_a_def
      scenario_account_def scenario_transaction_def)

lemma scenario_step2:
  "process_row scenario_normH clock
     ([(''1234567890123'', scenario_member)],
      [(''P-001'', (scenario_account clock)
          \<lparr> balance := Fin 200, paymentReceived := Fin 1000,
            transactions := [scenario_transaction (clock 0) 0 (Fin 1000) (Fin 200)] \<rparr>)])
     (Suc 0, scenario_row2) =
   Some ([(''1234567890123'', scenario_member)], [(''P-001'', scenario_account clock)])"
  by (simp add: process_row_def scenario_cols scenario_col row_eval scenario_member_def member_a_def
      scenario_account_def scenario_transaction_def)

lemma scenario_build:
  "build_entities clock scenario =
     Some \<lparr> d_users = [scenario_member], d_files = [scenario_account clock] \<rparr>"
proof -
  have "data_rows scenario = [(0, scenario_row1), (Suc 0, scenario_row2)]"
    by (simp add: data_rows_def scenario_lines)
  then show ?thesis
    by (simp add: build_entities_def scenario_lines scenario_header_of scenario_step1
        scenario_step2 jsmap_values_def)
qed

subsection \<open>What the entity builder guarantees\<close>

theorem imported_members_have_fixed_fields_witness:
  "build_entities (\<lambda>i. 0) scenario =
     Some \<lparr> d_users = [scenario_member], d_files = [scenario_account (\<lambda>i. 0)] \<rparr>
   \<and> role scenario_member = Some ''CLIENT'' \<and> status scenario_member = Some ''Active''
   \<and> password scenario_member = Some ''password123''
   \<and> email scenario_member = Some (normCNIC (cnic scenario_member) @ ''@dinproperties.com.pk'')
   \<and> email scenario_member = Some ''1234567890123@dinproperties.com.pk''"
proof -
  have e: "email scenario_member = Some ''1234567890123@dinproperties.com.pk''"
    by (simp add: scenario_member_def member_a_def)
  from imported_members_have_fixed_fields [OF scenario_build, of "\<lambda>i. 0"] e scenario_build [of "\<lambda>i. 0"]
  show ?thesis by simp
qed

lemma enumerate_sorted: "sorted_wrt (\<lambda>a b. fst a < fst b) (enumerate n xs)"
  by (metis map_fst_enumerate sorted_wrt_map sorted_wrt_upt)

lemma rows_of_account_sorted: "sorted_wrt (<) (map fst (rows_of_account normH k (data_rows text)))"
proof -
  have "sorted_wrt (\<lambda>a b. fst a < fst b) (data_rows text)"
    by (simp add: data_rows_def enumerate_sorted)
  then have "sorted_wrt (\<lambda>a b. fst a < fst b) (rows_of_account normH k (data_rows text))"
    by (simp add: rows_of_account_def contributing_def sorted_wrt_filter)
  then show ?thesis by (simp add: sorted_wrt_map)
qed

text \<open>Claim C4. For every accepted file (one with at least two non-empty lines) the
  import builds a candidate set. It holds exactly one member per distinct normalised
  identity and exactly one account per distinct account code among the rows that are not
  skipped. The transactions of an account are those built from its contributing rows,
  one per row and in file order, each with the index of its row as sequence number, and
  \<open>paymentReceived\<close> and \<open>balance\<close> are the sums over those rows of the normalised paid
  amount and balance due. For the file of the concrete scenario the result is one member
  and the one account \<^verbatim>\<open>P-001\<close> with payments 1500, balance 300 and the two transactions
  of the rows 0 and 1.\<close>

theorem build_entities_one_per_key:
  assumes "2 \<le> length (file_lines text)"
  shows "(\<exists>data. build_entities clock text = Some data
     \<and> (let normH = header_of (hd (file_lines text)); rows = data_rows text in
          distinct (map (\<lambda>u. normCNIC (cnic u)) (d_users data))
          \<and> set (map (\<lambda>u. normCNIC (cnic u)) (d_users data)) = set (map (key_of normH) (contributing normH rows))
          \<and> distinct (map fileNo (d_files data))
          \<and> set (map fileNo (d_files data)) = set (map (code_of normH) (contributing normH rows))
          \<and> (\<forall>f \<in> set (d_files data).
               transactions f =
                 map (transaction_of normH clock (plotValue f)) (rows_of_account normH (fileNo f) rows)
               \<and> map seq (transactions f) = map fst (rows_of_account normH (fileNo f) rows)
               \<and> sorted_wrt (<) (map seq (transactions f))
               \<and> paymentReceived f =
                   num_sum (map (\<lambda>r. paidVal_of normH (parseCSVLine (snd r))) (rows_of_account normH (fileNo f) rows))
               \<and> balance f =
                   num_sum (map (\<lambda>r. osVal_of normH (parseCSVLine (snd r))) (rows_of_account normH (fileNo f) rows)))))
     \<and> build_entities clock scenario =
         Some \<lparr> d_users = [scenario_member], d_files = [scenario_account clock] \<rparr>
     \<and> fileNo (scenario_account clock) = ''P-001''
     \<and> paymentReceived (scenario_account clock) = Fin 1500
     \<and> balance (scenario_account clock) = Fin 300
     \<and> map seq (transactions (scenario_account clock)) = [0, 1]
     \<and> map amount_paid (transactions (scenario_account clock)) = [Fin 1000, Fin 500]
     \<and> map balduedeb (transactions (scenario_account clock)) = [Fin 200, Fin 100]"
proof -
  let ?normH = "header_of (hd (file_lines text))"
  from build_entities_ok [OF assms, of clock]
  obtain maps where c:
    "build_entities clock text = Some \<lparr> d_users = map snd (fst maps), d_files = map snd (snd maps) \<rparr>
     \<and> users_ok ?normH (data_rows text) (fst maps)
     \<and> files_ok ?normH clock (data_rows text) (snd maps)" ..
  note b = c [THEN conjunct1] and u = c [THEN conjunct2, THEN conjunct1]
    and f = c [THEN conjunct2, THEN conjunct2]
  note m = members_of_build [OF u] and a = accounts_of_build [OF f]
  let ?data = "\<lparr> d_users = map snd (fst maps), d_files = map snd (snd maps) \<rparr>"
  have p1: "distinct (map (\<lambda>u. normCNIC (cnic u)) (d_users ?data))"
    using m by simp
  have p2: "set (map (\<lambda>u. normCNIC (cnic u)) (d_users ?data))
      = set (map (key_of ?normH) (contributing ?normH (data_rows text)))"
    using m by simp
  have p3: "distinct (map fileNo (d_files ?data))"
    using a by simp
  have p4: "set (map fileNo (d_files ?data))
      = set (map (code_of ?normH) (contributing ?normH (data_rows text)))"
    using a by simp
  have p5: "\<forall>f \<in> set (d_files ?data).
       transactions f =
         map (transaction_of ?normH clock (plotValue f)) (rows_of_account ?normH (fileNo f) (data_rows text))
       \<and> map seq (transactions f) = map fst (rows_of_account ?normH (fileNo f) (data_rows text))
       \<and> sorted_wrt (<) (map seq (transactions f))
       \<and> paymentReceived f =
           num_sum (map (\<lambda>r. paidVal_of ?normH (parseCSVLine (snd r))) (rows_of_account ?normH (fileNo f) (data_rows text)))
       \<and> balance f =
           num_sum (map (\<lambda>r. osVal_of ?normH (parseCSVLine (snd r))) (rows_of_account ?normH (fileNo f) (data_rows text)))"
  proof
    fix f assume "f \<in> set (d_files ?data)"
    then have i: "f \<in> set (map snd (snd maps))" by simp
    from a i have t: "transactions f =
         map (transaction_of ?normH clock (plotValue f)) (rows_of_account ?normH (fileNo f) (data_rows text))"
      and pr: "paymentReceived f =
           num_sum (map (\<lambda>r. paidVal_of ?normH (parseCSVLine (snd r))) (rows_of_account ?normH (fileNo f) (data_rows text)))"
      and bl: "balance f =
           num_sum (map (\<lambda>r. osVal_of ?normH (parseCSVLine (snd r))) (rows_of_account ?normH (fileNo f) (data_rows text)))"
      by blast+
    have sq: "map seq (transactions f) = map fst (rows_of_account ?normH (fileNo f) (data_rows text))"
      unfolding t by (rule transaction_of_seq)
    have so: "sorted_wrt (<) (map seq (transactions f))"
      unfolding sq by (rule rows_of_account_sorted)
    from t sq so pr bl show "transactions f =
         map (transaction_of ?normH clock (plotValue f)) (rows_of_account ?normH (fileNo f) (data_rows text))
       \<and> map seq (transactions f) = map fst (rows_of_account ?normH (fileNo f) (data_rows text))
       \<and> sorted_wrt (<) (map seq (transactions f))
       \<and> paymentReceived f =
           num_sum (map (\<lambda>r. paidVal_of ?normH (parseCSVLine (snd r))) (rows_of_account ?normH (fileNo f) (data_rows text)))
       \<and> balance f =
           num_sum (map (\<lambda>r. osVal_of ?normH (parseCSVLine (snd r))) (rows_of_account ?normH (fileNo f) (data_rows text)))"
      by blast
  qed
  have general: "\<exists>data. build_entities clock text = Some data
     \<and> (let normH = header_of (hd (file_lines text)); rows = data_rows text in
          distinct (map (\<lambda>u. normCNIC (cnic u)) (d_users data))
          \<and> set (map (\<lambda>u. normCNIC (cnic u)) (d_users data)) = set (map (key_of normH) (contributing normH rows))
          \<and> distinct (map fileNo (d_files data))
          \<and> set (map fileNo (d_files data)) = set (map (code_of normH) (contributing normH rows))
          \<and> (\<forall>f \<in> set (d_files data).
               transactions f =
                 map (transaction_of normH clock (plotValue f)) (rows_of_account normH (fileNo f) rows)
               \<and> map seq (transactions f) = map fst (rows_of_account normH (fileNo f) rows)
               \<and> sorted_wrt (<) (map seq (transactions f))
               \<and> paymentReceived f =
                   num_sum (map (\<lambda>r. paidVal_of normH (parseCSVLine (snd r))) (rows_of_account normH (fileNo f) rows))
               \<and> balance f =
                   num_sum (map (\<lambda>r. osVal_of normH (parseCSVLine (snd r))) (rows_of_account normH (fileNo f) rows))))"
    unfolding Let_def
    by (intro exI [of _ ?data] conjI) (fact b p1 p2 p3 p4 p5)+
  have c: "fileNo (scenario_account clock) = ''P-001''"
    "paymentReceived (scenario_account clock) = Fin 1500"
    "balance (scenario_account clock) = Fin 300"
    "map seq (transactions (scenario_account clock)) = [0, 1]"
    "map amount_paid (transactions (scenario_account clock)) = [Fin 1000, Fin 500]"
    "map balduedeb (transactions (scenario_account clock)) = [Fin 200, Fin 100]"
    by (simp_all add: scenario_account_def scenario_transaction_def)
  show ?thesis
    by (intro conjI) (fact general scenario_build c)+
qed

theorem build_entities_one_per_key_witness:
  "2 \<le> length (file_lines scenario)
   \<and> (\<exists>data. build_entities (\<lambda>i. 0) scenario = Some data
        \<and> distinct (map fileNo (d_files data))
        \<and> map fileNo (d_files data) = [''P-001'']
        \<and> map (\<lambda>u. normCNIC (cnic u)) (d_users data) = [''1234567890123''])"
proof -
  have h: "2 \<le> length (file_lines scenario)" by (simp add: scenario_lines)
  have n: "normCNIC (cnic scenario_member) = ''1234567890123''"
    by (simp add: scenario_member_def member_a_def is_digit_def)
  from build_entities_one_per_key [OF h, of "\<lambda>i. 0"] h n show ?thesis
    by (simp add: scenario_build scenario_account_def)
qed

subsection \<open>Rejection of malformed files\<close>

lemma process_row_unresolved:
  assumes "getIdx normH [''ocnic'', ''cnic'', ''u_ocnic''] = None
     \<or> getIdx normH [''itemcode'', ''item_code'', ''u_itemcode''] = None"
  shows "process_row normH clock maps row = Some maps"
  using assms
  by (auto simp: process_row_def Let_def rawCNIC_of_def itemCode_of_def col_unresolved or_else_def)

lemma forEach_rows_unresolved:
  assumes "getIdx normH [''ocnic'', ''cnic'', ''u_ocnic''] = None
     \<or> getIdx normH [''itemcode'', ''item_code'', ''u_itemcode''] = None"
  shows "forEach_rows normH clock maps rows = Some maps"
  by (induction rows) (simp_all add: process_row_unresolved [OF assms])

lemma build_entities_unresolved:
  assumes "2 \<le> length (file_lines text)"
    "getIdx (header_of (hd (file_lines text))) [''ocnic'', ''cnic'', ''u_ocnic''] = None
     \<or> getIdx (header_of (hd (file_lines text))) [''itemcode'', ''item_code'', ''u_itemcode''] = None"
  shows "build_entities clock text = Some \<lparr> d_users = [], d_files = [] \<rparr>"
  using assms(1)
  by (simp add: build_entities_def forEach_rows_unresolved [OF assms(2)] jsmap_values_def)

lemma too_few_lines_rejected:
  assumes "length (file_lines text) < 2"
  shows "handleMasterSync clock w text st = (FormatError, st)"
  using assms by (simp add: handleMasterSync_def build_entities_def)

lemma foreign_file_lines: "file_lines foreign_file = [''Name,Amount'', ''Ali Khan,100'']"
  unfolding foreign_file_def by code_simp

lemma foreign_file_header:
  "getIdx (header_of ''Name,Amount'') [''ocnic'', ''cnic'', ''u_ocnic''] = None"
  "getIdx (header_of ''Name,Amount'') [''itemcode'', ''item_code'', ''u_itemcode''] = None"
  by code_simp+

text \<open>Claim C1 holds for a file with fewer than two non-empty lines
  (\<open>too_few_lines_rejected\<close>) and fails for a header that resolves no required field. The
  file \<^verbatim>\<open>Name,Amount\<close> / \<^verbatim>\<open>Ali Khan,100\<close> has two non-empty lines, and its header
  resolves neither the identity number nor the account code. The import skips every row,
  applies the empty candidate set destructively and reports success with zero
  properties: the member and the account that the Registry held are gone, and the local
  snapshot holds the empty collections.\<close>

theorem unresolved_header_empties_registry:
  "getIdx (header_of (hd (file_lines foreign_file))) [''ocnic'', ''cnic'', ''u_ocnic''] = None
   \<and> getIdx (header_of (hd (file_lines foreign_file))) [''itemcode'', ''item_code'', ''u_itemcode''] = None
   \<and> users live_registry = [scenario_member]
   \<and> allFiles live_registry = [scenario_account (\<lambda>i. 0)]
   \<and> fst (handleMasterSync (\<lambda>i. 0) all_well foreign_file live_registry) = SyncSuccessful 0
   \<and> users (snd (handleMasterSync (\<lambda>i. 0) all_well foreign_file live_registry)) = []
   \<and> allFiles (snd (handleMasterSync (\<lambda>i. 0) all_well foreign_file live_registry)) = []
   \<and> s_users (local_store (snd (handleMasterSync (\<lambda>i. 0) all_well foreign_file live_registry))) = Some []
   \<and> s_files (local_store (snd (handleMasterSync (\<lambda>i. 0) all_well foreign_file live_registry))) = Some []"
proof -
  have l: "2 \<le> length (file_lines foreign_file)" by (simp add: foreign_file_lines)
  have h: "getIdx (header_of (hd (file_lines foreign_file))) [''ocnic'', ''cnic'', ''u_ocnic''] = None"
    "getIdx (header_of (hd (file_lines foreign_file))) [''itemcode'', ''item_code'', ''u_itemcode''] = None"
    by (simp_all add: foreign_file_lines foreign_file_header del: getIdx.simps)
  have b: "build_entities (\<lambda>i. 0) foreign_file = Some \<lparr> d_users = [], d_files = [] \<rparr>"
    using build_entities_unresolved [OF l] h(1) by blast
  have w: "w_users all_well = NoFault" "w_files all_well = NoFault"
    by (simp_all add: all_well_def)
  have r: "users live_registry = [scenario_member]" "allFiles live_registry = [scenario_account (\<lambda>i. 0)]"
    by (simp_all add: live_registry_def initial_app_def)
  show ?thesis
    using h r
    by (simp add: handleMasterSync_def b handleMassImport_registry handleMassImport_written [OF w]
        nUsers_def nFiles_def del: getIdx.simps)
qed

subsection \<open>Destructive re-import\<close>

lemma untimed_has:
  "jsmap_has (map (\<lambda>e. (fst e, untimed (snd e))) fm) k = jsmap_has fm k"
  by (simp add: jsmap_has_def o_def)

lemma untimed_get:
  "jsmap_get (map (\<lambda>e. (fst e, untimed (snd e))) fm) k = map_option untimed (jsmap_get fm k)"
  unfolding jsmap_get_def by (induction fm) auto

lemma untimed_set:
  "map (\<lambda>e. (fst e, untimed (snd e))) (jsmap_set fm k v)
     = jsmap_set (map (\<lambda>e. (fst e, untimed (snd e))) fm) k (untimed v)"
  by (simp add: jsmap_set_def untimed_has)

lemma untimed_idem: "untimed (untimed f) = untimed f"
  by (simp add: untimed_def untimed_tx_def o_def)

lemma untimed_new_file: "untimed (new_file normH cols n) = new_file normH cols n"
  by (simp add: untimed_def new_file_def)

lemma untimed_tx_new: "untimed_tx (new_transaction normH now idx cols t) = untimed_tx (new_transaction normH now' idx cols t)"
  by (simp add: untimed_tx_def new_transaction_def)

lemma row_file_untimed:
  "map_option (map (\<lambda>e. (fst e, untimed (snd e)))) (row_file normH cols um fm)
     = row_file normH cols um (map (\<lambda>e. (fst e, untimed (snd e))) fm)"
  by (simp add: row_file_def untimed_has untimed_set untimed_new_file split: option.splits)

lemma untimed_post:
  "untimed (p\<lparr> paymentReceived := a, balance := b,
              transactions := transactions p @ [new_transaction normH now idx cols (plotValue p)] \<rparr>)
   = untimed ((untimed p)\<lparr> paymentReceived := a, balance := b,
              transactions := transactions (untimed p)
                @ [new_transaction normH now' idx cols (plotValue (untimed p))] \<rparr>)"
  using untimed_tx_new [of normH now idx cols "plotValue p" now']
  by (simp add: untimed_def o_def) (simp add: untimed_tx_def)

lemma row_post_untimed:
  "map_option (map (\<lambda>e. (fst e, untimed (snd e)))) (row_post normH now idx cols fm)
     = map_option (map (\<lambda>e. (fst e, untimed (snd e))))
         (row_post normH now' idx cols (map (\<lambda>e. (fst e, untimed (snd e))) fm))"
proof (cases "jsmap_get fm (itemCode_of normH cols)")
  case None
  then show ?thesis by (simp add: row_post_def untimed_get)
next
  case (Some p)
  have q: "paymentReceived (untimed p) = paymentReceived p" "balance (untimed p) = balance p"
    by (simp_all add: untimed_def)
  show ?thesis
    using untimed_post [where p = p and normH = normH and now = now and now' = now' and idx = idx and cols = cols]
    by (simp add: row_post_def untimed_get Some untimed_set q untimed_idem o_def)
qed

lemma untimed_maps_idem: "untimed_maps (untimed_maps maps) = untimed_maps maps"
  by (simp add: untimed_maps_def o_def untimed_idem)

lemma process_row_untimed:
  "map_option untimed_maps (process_row normH c maps row)
     = map_option untimed_maps (process_row normH c' (untimed_maps maps) row)"
proof -
  let ?U = "map (\<lambda>e. (fst e, untimed (snd e)))"
  let ?cols = "parseCSVLine (snd row)"
  let ?um = "row_user normH ?cols (fst maps)"
  show ?thesis
  proof (cases "normCNIC (rawCNIC_of normH ?cols) = [] \<or> itemCode_of normH ?cols = []")
    case True
    then show ?thesis
      by (auto simp: process_row_def Let_def untimed_maps_idem)
  next
    case False
    note rf = row_file_untimed [of normH ?cols ?um "snd maps"]
    show ?thesis
    proof (cases "row_file normH ?cols ?um (snd maps)")
      case None
      with rf have "row_file normH ?cols ?um (?U (snd maps)) = None" by simp
      with None False show ?thesis
        by (simp add: process_row_def Let_def untimed_maps_def)
    next
      case (Some fm1)
      with rf have r: "row_file normH ?cols ?um (?U (snd maps)) = Some (?U fm1)" by simp
      note rp = row_post_untimed [of normH "c (fst row)" "fst row" ?cols fm1 "c' (fst row)"]
      show ?thesis
      proof (cases "row_post normH (c (fst row)) (fst row) ?cols fm1")
        case None
        with rp have "row_post normH (c' (fst row)) (fst row) ?cols (?U fm1) = None" by simp
        with None Some r False show ?thesis
          by (simp add: process_row_def Let_def untimed_maps_def)
      next
        case (Some fm2)
        with rp obtain fm2' where
          p: "row_post normH (c' (fst row)) (fst row) ?cols (?U fm1) = Some fm2'" "?U fm2' = ?U fm2"
          by (cases "row_post normH (c' (fst row)) (fst row) ?cols (?U fm1)") auto
        from Some \<open>row_file normH ?cols ?um (snd maps) = Some fm1\<close> r p False show ?thesis
          by (simp add: process_row_def Let_def untimed_maps_def)
      qed
    qed
  qed
qed

lemma forEach_rows_untimed:
  "map_option untimed_maps (forEach_rows normH c maps rows)
     = map_option untimed_maps (forEach_rows normH c' (untimed_maps maps) rows)"
proof (induction rows arbitrary: maps c c')
  case Nil
  show ?case by (simp add: untimed_maps_idem)
next
  case (Cons row rows)
  note s = process_row_untimed [of normH c maps row c']
  show ?case
  proof (cases "process_row normH c maps row")
    case None
    with s have "process_row normH c' (untimed_maps maps) row = None" by simp
    with None show ?thesis by simp
  next
    case (Some m1)
    with s obtain m1' where
      p: "process_row normH c' (untimed_maps maps) row = Some m1'" "untimed_maps m1' = untimed_maps m1"
      by (cases "process_row normH c' (untimed_maps maps) row") auto
    have "map_option untimed_maps (forEach_rows normH c m1 rows)
        = map_option untimed_maps (forEach_rows normH c' (untimed_maps m1) rows)"
      by (rule Cons.IH)
    also have "\<dots> = map_option untimed_maps (forEach_rows normH c' (untimed_maps m1') rows)"
      by (simp add: p(2))
    also have "\<dots> = map_option untimed_maps (forEach_rows normH c' m1' rows)"
      by (rule Cons.IH [symmetric])
    finally show ?thesis using Some p(1) by simp
  qed
qed

lemma build_entities_untimed:
  "map_option (\<lambda>d. (d_users d, map untimed (d_files d))) (build_entities c text)
     = map_option (\<lambda>d. (d_users d, map untimed (d_files d))) (build_entities c' text)"
proof (cases "length (file_lines text) < 2")
  case True
  then show ?thesis by (simp add: build_entities_def)
next
  case False
  let ?normH = "header_of (hd (file_lines text))"
  have e: "untimed_maps ([], []) = ([], [])" by (simp add: untimed_maps_def)
  note s = forEach_rows_untimed [of ?normH c "([], [])" "data_rows text" c', unfolded e]
  show ?thesis
  proof (cases "forEach_rows ?normH c ([], []) (data_rows text)")
    case None
    with s have "forEach_rows ?normH c' ([], []) (data_rows text) = None" by simp
    with None False show ?thesis by (simp add: build_entities_def)
  next
    case (Some m)
    with s obtain m' where
      p: "forEach_rows ?normH c' ([], []) (data_rows text) = Some m'" "untimed_maps m' = untimed_maps m"
      by (cases "forEach_rows ?normH c' ([], []) (data_rows text)") auto
    from p(2) have "fst m' = fst m" "map untimed (map snd (snd m')) = map untimed (map snd (snd m))"
      by (simp_all add: untimed_maps_def o_def) (metis (no_types, lifting) map_map o_def snd_conv map_eq_conv)
    with Some p(1) False show ?thesis
      by (simp add: build_entities_def jsmap_values_def)
  qed
qed

lemma handleMasterSync_registry:
  "users (snd (handleMasterSync c w text st))
     = (case build_entities c text of None \<Rightarrow> users st | Some d \<Rightarrow> d_users d)
   \<and> allFiles (snd (handleMasterSync c w text st))
     = (case build_entities c text of None \<Rightarrow> allFiles st | Some d \<Rightarrow> d_files d)"
  by (simp add: handleMasterSync_def handleMassImport_registry nUsers_def nFiles_def
      split: option.splits)

text \<open>Claim C3, as stated, fails: the \<open>transid\<close> of a transaction is the reading of the
  clock at the import plus the row index (line 144). The file of the scenario imported at
  the time 1000 and again at the time 2000 leaves accounts that differ from those of the
  one import at the time 1000.\<close>

theorem reimport_counterexample:
  "allFiles (snd (handleMasterSync (\<lambda>i. 2000) all_well scenario
       (snd (handleMasterSync (\<lambda>i. 1000) all_well scenario (initial_app :: (unit, unit) app)))))
   \<noteq> allFiles (snd (handleMasterSync (\<lambda>i. 1000) all_well scenario (initial_app :: (unit, unit) app)))"
  by (simp add: handleMasterSync_registry scenario_build scenario_account_def
      scenario_transaction_def)

text \<open>Claim C3, amended. Importing a file in destructive mode twice in succession yields
  the Registry of the second import alone. Its members are those of the Registry after
  one import, and its accounts are those of the Registry after one import in every field
  of every account and transaction except \<open>transid\<close>, which is the clock reading of the
  import plus the row index. When both imports read the same clock values the two
  Registries are identical.\<close>

theorem destructive_reimport_up_to_transid:
  "users (snd (handleMasterSync c2 w2 text (snd (handleMasterSync c1 w1 text st))))
     = users (snd (handleMasterSync c1 w1 text st))
   \<and> map untimed (allFiles (snd (handleMasterSync c2 w2 text (snd (handleMasterSync c1 w1 text st)))))
     = map untimed (allFiles (snd (handleMasterSync c1 w1 text st)))
   \<and> users (snd (handleMasterSync c2 w2 text (snd (handleMasterSync c1 w1 text st))))
     = users (snd (handleMasterSync c2 w2 text st))
   \<and> allFiles (snd (handleMasterSync c2 w2 text (snd (handleMasterSync c1 w1 text st))))
     = allFiles (snd (handleMasterSync c2 w2 text st))
   \<and> allFiles (snd (handleMasterSync c1 w2 text (snd (handleMasterSync c1 w1 text st))))
     = allFiles (snd (handleMasterSync c1 w1 text st))"
proof (cases "build_entities c1 text")
  case None
  then have "build_entities c2 text = None"
    by (simp add: build_entities_None)
  with None show ?thesis by (simp add: handleMasterSync_registry)
next
  case (Some d1)
  with build_entities_untimed [of c1 "text" c2] obtain d2 where
    d: "build_entities c2 text = Some d2" "d_users d2 = d_users d1"
      "map untimed (d_files d2) = map untimed (d_files d1)"
    by (cases "build_entities c2 text") auto
  with Some show ?thesis by (simp add: handleMasterSync_registry)
qed

subsection \<open>Additive merge\<close>

lemma foldl_jsmap_set_fresh:
  assumes "distinct (map fst (m @ es))"
  shows "foldl (\<lambda>m e. jsmap_set m (fst e) (snd e)) m es = m @ es"
  using assms
proof (induction es arbitrary: m)
  case Nil
  show ?case by simp
next
  case (Cons e es)
  then have n: "\<not> jsmap_has m (fst e)" by (auto simp: jsmap_has_def)
  from Cons.prems have "distinct (map fst ((m @ [e]) @ es))" by simp
  from Cons.IH [OF this] n show ?case by (simp add: jsmap_set_new)
qed

lemma jsmap_of_distinct: "distinct (map fst es) \<Longrightarrow> jsmap_of es = es"
  using foldl_jsmap_set_fresh [of "[]" es] by (simp add: jsmap_of_def)

lemma find_key_None: "key y \<notin> set (map key ys) \<Longrightarrow> find (\<lambda>z. key z = key y) ys = None"
  by (induction ys) auto

lemma foldl_jsmap_set_merge:
  assumes "distinct (map fst m)" "distinct (map key inc)"
  shows "foldl (\<lambda>m x. jsmap_set m (key x) x) m inc
     = map (\<lambda>e. case find (\<lambda>y. key y = fst e) inc of None \<Rightarrow> e | Some y \<Rightarrow> (fst e, y)) m
       @ map (\<lambda>y. (key y, y)) (filter (\<lambda>y. key y \<notin> set (map fst m)) inc)"
  using assms
proof (induction inc arbitrary: m)
  case Nil
  show ?case by simp
next
  case (Cons y ys)
  from Cons.prems have fresh: "key y \<notin> set (map key ys)" and dys: "distinct (map key ys)"
    by simp_all
  have nf: "find (\<lambda>z. key z = key y) ys = None"
    using fresh by (rule find_key_None)
  show ?case
  proof (cases "jsmap_has m (key y)")
    case True
    let ?m' = "map (\<lambda>e. if fst e = key y then (key y, y) else e) m"
    have s: "jsmap_set m (key y) y = ?m'" using True by (rule jsmap_set_old)
    have k: "map fst ?m' = map fst m" by (induction m) auto
    have d: "distinct (map fst ?m')" using Cons.prems(1) by (simp only: k)
    have a: "map (\<lambda>e. case find (\<lambda>z. key z = fst e) ys of None \<Rightarrow> e | Some z \<Rightarrow> (fst e, z)) ?m'
        = map (\<lambda>e. case find (\<lambda>z. key z = fst e) (y # ys) of None \<Rightarrow> e | Some z \<Rightarrow> (fst e, z)) m"
      using nf by (induction m) auto
    have b: "filter (\<lambda>z. key z \<notin> set (map fst ?m')) ys = filter (\<lambda>z. key z \<notin> set (map fst m)) (y # ys)"
      using True by (simp only: k) (simp add: jsmap_has_def)
    show ?thesis
      using Cons.IH [OF d dys] by (simp only: foldl_Cons s a b)
  next
    case False
    let ?m' = "m @ [(key y, y)]"
    have s: "jsmap_set m (key y) y = ?m'" using False by (rule jsmap_set_new)
    from False have nk: "key y \<notin> set (map fst m)" by (simp add: jsmap_has_def)
    have d: "distinct (map fst ?m')" using Cons.prems(1) nk by simp
    have a: "map (\<lambda>e. case find (\<lambda>z. key z = fst e) ys of None \<Rightarrow> e | Some z \<Rightarrow> (fst e, z)) m
        = map (\<lambda>e. case find (\<lambda>z. key z = fst e) (y # ys) of None \<Rightarrow> e | Some z \<Rightarrow> (fst e, z)) m"
      using nk by (intro map_cong refl) auto
    have ne: "key z \<noteq> key y" if "z \<in> set ys" for z
      using that fresh by (metis image_eqI set_map)
    have b: "filter (\<lambda>z. key z \<notin> set (map fst ?m')) ys = filter (\<lambda>z. key z \<notin> set (map fst m)) ys"
      by (intro filter_cong refl) (simp add: ne)
    have c: "map (\<lambda>e. case find (\<lambda>z. key z = fst e) ys of None \<Rightarrow> e | Some z \<Rightarrow> (fst e, z)) ?m'
        = map (\<lambda>e. case find (\<lambda>z. key z = fst e) ys of None \<Rightarrow> e | Some z \<Rightarrow> (fst e, z)) m
          @ [(key y, y)]"
      using nf by simp
    have f: "filter (\<lambda>z. key z \<notin> set (map fst m)) (y # ys)
        = y # filter (\<lambda>z. key z \<notin> set (map fst m)) ys"
      using nk by simp
    have "foldl (\<lambda>m x. jsmap_set m (key x) x) m (y # ys)
        = foldl (\<lambda>m x. jsmap_set m (key x) x) ?m' ys"
      by (simp only: foldl_Cons s)
    also have "\<dots> = map (\<lambda>e. case find (\<lambda>z. key z = fst e) ys of None \<Rightarrow> e | Some z \<Rightarrow> (fst e, z)) ?m'
          @ map (\<lambda>y. (key y, y)) (filter (\<lambda>z. key z \<notin> set (map fst ?m')) ys)"
      by (rule Cons.IH [OF d dys])
    also have "\<dots> = map (\<lambda>e. case find (\<lambda>z. key z = fst e) (y # ys) of None \<Rightarrow> e | Some z \<Rightarrow> (fst e, z)) m
          @ map (\<lambda>y. (key y, y)) (filter (\<lambda>z. key z \<notin> set (map fst m)) (y # ys))"
      by (simp only: c b f a [symmetric]) simp
    finally show ?thesis .
  qed
qed

lemma merge_by_distinct:
  assumes "distinct (map key existing)" "distinct (map key incoming)"
  shows "merge_by key existing incoming
     = map (\<lambda>x. case find (\<lambda>y. key y = key x) incoming of None \<Rightarrow> x | Some y \<Rightarrow> y) existing
       @ filter (\<lambda>y. key y \<notin> set (map key existing)) incoming"
proof -
  have d: "distinct (map fst (map (\<lambda>x. (key x, x)) existing))"
    using assms(1) by (simp add: o_def)
  have "snd \<circ> (\<lambda>e. case find (\<lambda>y. key y = fst e) incoming of None \<Rightarrow> e | Some y \<Rightarrow> (fst e, y)) \<circ> (\<lambda>x. (key x, x))
      = (\<lambda>x. case find (\<lambda>y. key y = key x) incoming of None \<Rightarrow> x | Some y \<Rightarrow> y)"
    by (auto simp: fun_eq_iff split: option.splits)
  then show ?thesis
    unfolding merge_by_def jsmap_of_distinct [OF d] foldl_jsmap_set_merge [OF d assms(2)] jsmap_values_def
    by (simp add: o_def)
qed

lemma merge_by_unseen:
  assumes "distinct (map key existing)" "distinct (map key incoming)"
    "set (map key incoming) \<inter> set (map key existing) = {}"
  shows "merge_by key existing incoming = existing @ incoming"
proof -
  have n: "find (\<lambda>y. key y = key x) incoming = None" if "x \<in> set existing" for x
  proof (rule find_key_None)
    from that have "key x \<in> set (map key existing)" by simp
    with assms(3) show "key x \<notin> set (map key incoming)" by blast
  qed
  have a: "map (\<lambda>x. case find (\<lambda>y. key y = key x) incoming of None \<Rightarrow> x | Some y \<Rightarrow> y) existing = existing"
    by (intro map_idI) (simp add: n)
  have b: "filter (\<lambda>y. key y \<notin> set (map key existing)) incoming = incoming"
    using assms(3) by (auto simp: filter_id_conv)
  show ?thesis
    unfolding merge_by_distinct [OF assms(1,2)] a b ..
qed

text \<open>Claim C5. Let the live Registry and the incoming set each hold at most one record
  per merge key (the normalised identity for members, the account code for accounts). An
  additive merge keeps the live records in their order, each one replaced as a whole by
  the incoming record of its key if there is one and unchanged otherwise, transactions
  included, and appends the incoming records whose keys the Registry did not hold. Hence
  a file that holds only account codes the Registry has not seen adds its accounts after
  the prior ones and leaves those unchanged.\<close>

theorem additive_merge_by_key:
  assumes "distinct (map (\<lambda>u. normCNIC (cnic u)) (users st))"
    and "distinct (map fileNo (allFiles st))"
    and "distinct (map (\<lambda>u. normCNIC (cnic u)) (d_users data))"
    and "distinct (map fileNo (d_files data))"
  shows "users (handleMassImport w data False st)
       = map (\<lambda>x. case find (\<lambda>y. normCNIC (cnic y) = normCNIC (cnic x)) (d_users data) of
                    None \<Rightarrow> x | Some y \<Rightarrow> y) (users st)
         @ filter (\<lambda>y. normCNIC (cnic y) \<notin> set (map (\<lambda>u. normCNIC (cnic u)) (users st))) (d_users data)
     \<and> allFiles (handleMassImport w data False st)
       = map (\<lambda>x. case find (\<lambda>y. fileNo y = fileNo x) (d_files data) of
                    None \<Rightarrow> x | Some y \<Rightarrow> y) (allFiles st)
         @ filter (\<lambda>y. fileNo y \<notin> set (map fileNo (allFiles st))) (d_files data)
     \<and> (set (map fileNo (d_files data)) \<inter> set (map fileNo (allFiles st)) = {}
          \<longrightarrow> allFiles (handleMassImport w data False st) = allFiles st @ d_files data)"
  using merge_by_distinct [OF assms(1,3)] merge_by_distinct [OF assms(2,4)]
    merge_by_unseen [OF assms(2,4)]
  by (simp add: handleMassImport_registry nUsers_def nFiles_def)

theorem additive_merge_by_key_witness:
  "distinct (map (\<lambda>u. normCNIC (cnic u)) (users live_registry))
   \<and> distinct (map fileNo (allFiles live_registry))
   \<and> distinct (map (\<lambda>u. normCNIC (cnic u)) (d_users upload_b))
   \<and> distinct (map fileNo (d_files upload_b))
   \<and> distinct (map fileNo (d_files upload_new))
   \<and> set (map fileNo (d_files upload_new)) \<inter> set (map fileNo (allFiles live_registry)) = {}
   \<and> users (handleMassImport all_well upload_b False live_registry) = [scenario_member, member_b]
   \<and> allFiles (handleMassImport all_well upload_b False live_registry) = [account_a_newer, account_b]
   \<and> allFiles (handleMassImport all_well upload_new False live_registry)
       = [scenario_account (\<lambda>i. 0), account_b]"
proof -
  have k: "fileNo account_b = ''P-002''" "fileNo account_a_newer = ''P-001''"
    "fileNo (scenario_account (\<lambda>i. 0)) = ''P-001''"
    "normCNIC (cnic scenario_member) = ''1234567890123''"
    "normCNIC (cnic member_b) = ''3520211111111''"
    by (simp_all add: account_b_def account_a_newer_def scenario_account_def scenario_member_def
        member_a_def member_b_def is_digit_def)
  have r: "users live_registry = [scenario_member]" "allFiles live_registry = [scenario_account (\<lambda>i. 0)]"
    by (simp_all add: live_registry_def initial_app_def)
  have h: "distinct (map (\<lambda>u. normCNIC (cnic u)) (users live_registry))"
    "distinct (map fileNo (allFiles live_registry))"
    "distinct (map (\<lambda>u. normCNIC (cnic u)) (d_users upload_b))"
    "distinct (map fileNo (d_files upload_b))"
    by (simp_all add: r upload_b_def k)
  have h': "distinct (map (\<lambda>u. normCNIC (cnic u)) (d_users upload_new))"
    "distinct (map fileNo (d_files upload_new))"
    by (simp_all add: upload_new_def k)
  have e: "set (map fileNo (d_files upload_new)) \<inter> set (map fileNo (allFiles live_registry)) = {}"
    by (simp add: upload_new_def r k)
  from additive_merge_by_key [OF h, of all_well]
    additive_merge_by_key [OF h(1,2) h', of all_well] h h' e
  show ?thesis
    by (simp add: r upload_b_def upload_new_def k)
qed

subsection \<open>Identity normalisation\<close>

lemma normCNIC_filter: "normCNIC s = filter (\<lambda>c. is_digit c \<or> c = CHR ''X'') s"
  by (induction s) simp_all

lemma normCNIC_append: "normCNIC (p @ q) = normCNIC p @ normCNIC q"
  by (simp add: normCNIC_filter)

lemma normCNIC_case_sensitive: "normCNIC (p @ ''x'' @ q) \<noteq> normCNIC (p @ ''X'' @ q)"
proof
  assume "normCNIC (p @ ''x'' @ q) = normCNIC (p @ ''X'' @ q)"
  then have "length (normCNIC (p @ ''x'' @ q)) = length (normCNIC (p @ ''X'' @ q))" by simp
  then show False by (simp add: normCNIC_append is_digit_def)
qed

lemma case_file_lines: "file_lines case_file = [scenario_header, case_row1, case_row2]"
  unfolding case_file_def scenario_header_def case_row1_def case_row2_def by code_simp

lemma case_cols:
  "parseCSVLine case_row1 = [''12345-x'', ''Member One'', ''P-001'', ''5000'', ''1000'', ''200'']"
  "parseCSVLine case_row2 = [''12345-X'', ''Member Two'', ''P-002'', ''5000'', ''500'', ''100'']"
  unfolding case_row1_def case_row2_def by code_simp+

lemma case_keys:
  "key_of scenario_normH (0, case_row1) = ''12345''"
  "key_of scenario_normH (Suc 0, case_row2) = ''12345X''"
  "code_of scenario_normH (0, case_row1) = ''P-001''"
  "code_of scenario_normH (Suc 0, case_row2) = ''P-002''"
  by (simp_all add: key_of_def code_of_def rawCNIC_of_def itemCode_of_def case_cols scenario_col
      or_else_def trim_def is_space_def is_digit_def)

lemma case_file_members:
  "\<exists>data. build_entities clock case_file = Some data
     \<and> length (d_users data) = 2
     \<and> set (map (\<lambda>u. normCNIC (cnic u)) (d_users data)) = {''12345'', ''12345X''}"
proof -
  have l: "2 \<le> length (file_lines case_file)" by (simp add: case_file_lines)
  have r: "data_rows case_file = [(0, case_row1), (Suc 0, case_row2)]"
    by (simp add: data_rows_def case_file_lines)
  have h: "header_of (hd (file_lines case_file)) = scenario_normH"
    by (simp add: case_file_lines scenario_header_of)
  from build_entities_ok [OF l, of clock]
  obtain maps where c:
    "build_entities clock case_file = Some \<lparr> d_users = map snd (fst maps), d_files = map snd (snd maps) \<rparr>
     \<and> users_ok (header_of (hd (file_lines case_file))) (data_rows case_file) (fst maps)
     \<and> files_ok (header_of (hd (file_lines case_file))) clock (data_rows case_file) (snd maps)" ..
  note b = c [THEN conjunct1] and u = c [THEN conjunct2, THEN conjunct1]
  let ?data = "\<lparr> d_users = map snd (fst maps), d_files = map snd (snd maps) \<rparr>"
  have k: "set (map (key_of scenario_normH) (contributing scenario_normH [(0, case_row1), (Suc 0, case_row2)]))
      = {''12345'', ''12345X''}"
    by (simp add: contributing_def case_keys)
  note mb = members_of_build [OF u, unfolded h r k]
  note d = mb [THEN conjunct1] and s = mb [THEN conjunct2]
  have "length (map snd (fst maps)) = length (map (\<lambda>u. normCNIC (cnic u)) (map snd (fst maps)))"
    by simp
  also have "\<dots> = card (set (map (\<lambda>u. normCNIC (cnic u)) (map snd (fst maps))))"
    using distinct_card [OF d] by simp
  also have "\<dots> = 2" unfolding s by simp
  finally have n: "length (d_users ?data) = 2" by simp
  have s': "set (map (\<lambda>u. normCNIC (cnic u)) (d_users ?data)) = {''12345'', ''12345X''}"
    using s by simp
  show ?thesis
    by (intro exI [of _ ?data] conjI) (fact b n s')+
qed

text \<open>Claim C10. Identity normalisation keeps exactly the decimal digits and the capital
  letter X of the raw identity, in order, and is case-sensitive: \<^verbatim>\<open>12345-x\<close> normalises to
  \<^verbatim>\<open>12345\<close> and \<^verbatim>\<open>12345-X\<close> to \<^verbatim>\<open>12345X\<close>, and any two raw identities that differ
  only in the case of one check character have different merge keys. Such identities are
  distinct entities everywhere: the entity builder makes two members of two rows that
  carry them, an additive merge keeps both members, a registration under the one does not
  match a member under the other and is appended, and an account owned under the one is
  not among the files of a user under the other.\<close>

theorem normCNIC_keeps_digits_and_X:
  "normCNIC s = filter (\<lambda>c. c \<in> set ''0123456789'' \<or> c = CHR ''X'') s
   \<and> normCNIC ''12345-x'' = ''12345'' \<and> normCNIC ''12345-X'' = ''12345X''
   \<and> normCNIC (p @ ''x'' @ q) \<noteq> normCNIC (p @ ''X'' @ q)
   \<and> (\<exists>data. build_entities clock case_file = Some data
        \<and> length (d_users data) = 2
        \<and> set (map (\<lambda>u. normCNIC (cnic u)) (d_users data)) = {''12345'', ''12345X''})
   \<and> merge_by (\<lambda>u. normCNIC (cnic u)) [a\<lparr>cnic := p @ ''x'' @ q\<rparr>] [b\<lparr>cnic := p @ ''X'' @ q\<rparr>]
       = [a\<lparr>cnic := p @ ''x'' @ q\<rparr>, b\<lparr>cnic := p @ ''X'' @ q\<rparr>]
   \<and> users (handleRegister c r (b\<lparr>cnic := p @ ''X'' @ q\<rparr>) (st\<lparr>users := [a\<lparr>cnic := p @ ''x'' @ q\<rparr>]\<rparr>))
       = [a\<lparr>cnic := p @ ''x'' @ q\<rparr>, b\<lparr>cnic := p @ ''X'' @ q\<rparr>]
   \<and> userFiles (Some (b\<lparr>cnic := p @ ''X'' @ q\<rparr>)) [f\<lparr>ownerCNIC := p @ ''x'' @ q\<rparr>] = []"
proof -
  note n = normCNIC_case_sensitive [of p q]
  have 1: "normCNIC s = filter (\<lambda>c. c \<in> set ''0123456789'' \<or> c = CHR ''X'') s"
    using normCNIC_filter [of s] by (simp only: is_digit_def)
  have 2: "normCNIC ''12345-x'' = ''12345''" "normCNIC ''12345-X'' = ''12345X''"
    by (simp_all add: is_digit_def)
  have 3: "merge_by (\<lambda>u. normCNIC (cnic u)) [a\<lparr>cnic := p @ ''x'' @ q\<rparr>] [b\<lparr>cnic := p @ ''X'' @ q\<rparr>]
       = [a\<lparr>cnic := p @ ''x'' @ q\<rparr>, b\<lparr>cnic := p @ ''X'' @ q\<rparr>]"
    using n merge_by_unseen [of "\<lambda>u. normCNIC (cnic u)" "[a\<lparr>cnic := p @ ''x'' @ q\<rparr>]" "[b\<lparr>cnic := p @ ''X'' @ q\<rparr>]"]
    by auto
  have 4: "users (handleRegister c r (b\<lparr>cnic := p @ ''X'' @ q\<rparr>) (st\<lparr>users := [a\<lparr>cnic := p @ ''x'' @ q\<rparr>]\<rparr>))
       = [a\<lparr>cnic := p @ ''x'' @ q\<rparr>, b\<lparr>cnic := p @ ''X'' @ q\<rparr>]"
    using n handleRegister_append [of "st\<lparr>users := [a\<lparr>cnic := p @ ''x'' @ q\<rparr>]\<rparr>" "b\<lparr>cnic := p @ ''X'' @ q\<rparr>" c r]
    by simp
  have 5: "userFiles (Some (b\<lparr>cnic := p @ ''X'' @ q\<rparr>)) [f\<lparr>ownerCNIC := p @ ''x'' @ q\<rparr>] = []"
    using n by (simp add: userFiles_def userCnicNorm_def)
  show ?thesis
    by (intro conjI) (fact 1 2 n case_file_members 3 4 5)+
qed

end
